theory Spec2Isabelle
  imports Complex_Main
begin

section \<open>JavaScript values\<close>

text \<open>
  The game is written in JavaScript. A Number is modelled as a \<^typ>\<open>real\<close>. The
  arithmetic of the physics step and of the bounds of the scheduler is read as exact
  arithmetic (no rounding, no NaN, no infinities). The number of updates in a frame
  depends on rounding: for it the frame callback is modelled a second time, with every
  arithmetic result rounded to double precision (section \<open>Double precision\<close>).
  Counters that the code only ever increments by one are \<^typ>\<open>nat\<close>; the frame-skip
  limit, a count supplied by the caller, is an \<^typ>\<open>int\<close>. An option that the caller
  may leave out is an \<^typ>\<open>'a option\<close>, with \<open>None\<close> for \<open>undefined\<close> and \<open>null\<close>.

  \<open>v || dflt\<close> yields \<open>dflt\<close> when \<open>v\<close> is falsy (missing or zero) and \<open>v\<close> otherwise.
\<close>

definition js_or :: "'a::zero option \<Rightarrow> 'a \<Rightarrow> 'a" where
  "js_or v dflt = (case v of None \<Rightarrow> dflt | Some n \<Rightarrow> if n = 0 then dflt else n)"

text \<open>\<open>v || null\<close>.\<close>

definition js_or_null :: "real option \<Rightarrow> real option" where
  "js_or_null v = (case v of None \<Rightarrow> None | Some n \<Rightarrow> if n = 0 then None else Some n)"

text \<open>\<open>Math.round\<close> rounds to the nearest integer, halves upwards.\<close>

definition Math_round :: "real \<Rightarrow> int" where
  "Math_round r = \<lfloor>r + 1 / 2\<rfloor>"

section \<open>The scheduler: class GameEngine\<close>

text \<open>The argument of the constructor: every option may be missing.\<close>

record options =
  opt_targetFPS :: "real option"
  opt_targetUPS :: "real option"
  opt_maxFrameSkip :: "int option"
  opt_gravity :: "real option"
  opt_pixelsPerMeter :: "real option"
  opt_taxiStartX :: "real option"
  opt_taxiStartY :: "real option"
  opt_thrusterForce :: "real option"
  opt_regularFlightThrust :: "real option"
  opt_hoverThrust :: "real option"
  opt_hoverDamping :: "real option"
  opt_aiBotCount :: "int option"

text \<open>\<open>this.config\<close>: the physics configuration.\<close>

record physics_config =
  gravity :: real
  pixelsPerMeter :: real
  taxiStartX :: real
  taxiStartY :: real
  thrusterForce :: real
  regularFlightThrust :: real
  hoverThrust :: "real option"
  hoverDamping :: real
  aiBotCount :: int

text \<open>\<open>this.stats\<close>.\<close>

record engine_stats =
  fps :: int
  ups :: int
  frameCount :: nat
  updateCount :: nat
  lastStatsTime :: real

text \<open>
  The engine. Its callbacks act on the state of the game, of type \<open>'g\<close>; a callback
  that is \<open>null\<close> is \<open>None\<close>. \<open>frameId\<close> is the handle of the pending animation
  frame request.
\<close>

record 'g GameEngine =
  targetFPS :: real
  targetUPS :: real
  maxFrameSkip :: int
  config :: physics_config
  frameTime :: real
  updateTime :: real
  lastFrameTime :: real
  lastUpdateTime :: real
  accumulator :: real
  isRunning :: bool
  isPaused :: bool
  frameId :: "nat option"
  stats :: engine_stats
  onUpdate :: "(real \<Rightarrow> 'g \<Rightarrow> 'g) option"
  onRender :: "(real \<Rightarrow> 'g \<Rightarrow> 'g) option"
  onInit :: "('g \<Rightarrow> 'g) option"
  onPause :: "('g \<Rightarrow> 'g) option"
  onResume :: "('g \<Rightarrow> 'g) option"
  onStop :: "('g \<Rightarrow> 'g) option"

text \<open>
  The constructor. The two divisions are by \<open>targetFPS\<close> and \<open>targetUPS\<close> as the
  constructor has just set them.
\<close>

definition new_GameEngine :: "options \<Rightarrow> 'g GameEngine" where
  "new_GameEngine c =
     (let fpsT = js_or (opt_targetFPS c) 60;
          upsT = js_or (opt_targetUPS c) 60
      in \<lparr> targetFPS = fpsT,
           targetUPS = upsT,
           maxFrameSkip = js_or (opt_maxFrameSkip c) 5,
           config = \<lparr> gravity = js_or (opt_gravity c) 9.81,
                      pixelsPerMeter = js_or (opt_pixelsPerMeter c) 100,
                      taxiStartX = js_or (opt_taxiStartX c) 0.5,
                      taxiStartY = js_or (opt_taxiStartY c) 0.2,
                      thrusterForce = js_or (opt_thrusterForce c) 1500,
                      regularFlightThrust = js_or (opt_regularFlightThrust c) 500,
                      hoverThrust = js_or_null (opt_hoverThrust c),
                      hoverDamping = js_or (opt_hoverDamping c) 800,
                      aiBotCount = js_or (opt_aiBotCount c) 2 \<rparr>,
           frameTime = 1000 / fpsT,
           updateTime = 1000 / upsT,
           lastFrameTime = 0,
           lastUpdateTime = 0,
           accumulator = 0,
           isRunning = False,
           isPaused = False,
           frameId = None,
           stats = \<lparr> fps = 0, ups = 0, frameCount = 0, updateCount = 0, lastStatsTime = 0 \<rparr>,
           onUpdate = None,
           onRender = None,
           onInit = None,
           onPause = None,
           onResume = None,
           onStop = None \<rparr>)"

text \<open>Calling a callback that takes no argument, when it is set.\<close>

definition call_hook :: "('g \<Rightarrow> 'g) option \<Rightarrow> 'g \<Rightarrow> 'g" where
  "call_hook h g = (case h of None \<Rightarrow> g | Some f \<Rightarrow> f g)"

text \<open>
  \<open>updateStats\<close> and \<open>resetStats\<close>; \<open>now\<close> is what \<open>performance.now()\<close> returns.
\<close>

definition updateStats :: "'g GameEngine \<Rightarrow> real \<Rightarrow> real \<Rightarrow> 'g GameEngine" where
  "updateStats e deltaTime now =
     (let elapsed = now - lastStatsTime (stats e)
      in if elapsed \<ge> 1000
         then e\<lparr>stats := \<lparr> fps = Math_round ((real (frameCount (stats e)) * 1000) / elapsed),
                          ups = Math_round ((real (updateCount (stats e)) * 1000) / elapsed),
                          frameCount = 0,
                          updateCount = 0,
                          lastStatsTime = now \<rparr>\<rparr>
         else e)"

definition resetStats :: "'g GameEngine \<Rightarrow> real \<Rightarrow> 'g GameEngine" where
  "resetStats e now =
     e\<lparr>stats := \<lparr> fps = 0, ups = 0, frameCount = 0, updateCount = 0, lastStatsTime = now \<rparr>\<rparr>"

text \<open>
  The calls that one run of \<open>gameLoop\<close> makes to the update and render callbacks, in
  order, each with its argument: a log kept beside the state, to count the calls.
\<close>

datatype hook_call = UpdateCall real | RenderCall real

text \<open>
  The \<open>while\<close> loop of \<open>gameLoop\<close>: the engine, the game, the log so far and the
  local counter \<open>updateCount\<close> (here \<open>n\<close>).
\<close>

function updateLoop ::
  "'g GameEngine \<Rightarrow> 'g \<Rightarrow> hook_call list \<Rightarrow> int \<Rightarrow> 'g GameEngine \<times> 'g \<times> hook_call list" where
  "updateLoop e g calls n =
     (if accumulator e \<ge> updateTime e \<and> n < maxFrameSkip e
      then updateLoop
             (e\<lparr>accumulator := accumulator e - updateTime e,
                stats := (stats e)\<lparr>updateCount := updateCount (stats e) + 1\<rparr>\<rparr>)
             (case onUpdate e of None \<Rightarrow> g | Some f \<Rightarrow> f (updateTime e / 1000) g)
             (case onUpdate e of None \<Rightarrow> calls | Some f \<Rightarrow> calls @ [UpdateCall (updateTime e / 1000)])
             (n + 1)
      else (e, g, calls))"
  by pat_completeness auto
termination
  by (relation "measure (\<lambda>(e, g, calls, n). nat (maxFrameSkip e - n))") auto

declare updateLoop.simps [simp del]

text \<open>
  \<open>gameLoop(currentTime)\<close>. \<open>handle\<close> is what \<open>requestAnimationFrame\<close> returns and
  \<open>now\<close> what \<open>performance.now()\<close> returns inside \<open>updateStats\<close>.
\<close>

definition gameLoop ::
  "'g GameEngine \<Rightarrow> 'g \<Rightarrow> real \<Rightarrow> real \<Rightarrow> nat \<Rightarrow> 'g GameEngine \<times> 'g \<times> hook_call list" where
  "gameLoop e g currentTime now handle =
     (if \<not> isRunning e then (e, g, [])
      else
        let e1 = e\<lparr>frameId := Some handle\<rparr>
        in if isPaused e1 then (e1, g, [])
           else
             let deltaTime = currentTime - lastFrameTime e1;
                 e2 = e1\<lparr>lastFrameTime := currentTime\<rparr>;
                 e3 = updateStats e2 deltaTime now;
                 e4 = e3\<lparr>accumulator := accumulator e3 + deltaTime\<rparr>;
                 (e5, g5, calls5) = updateLoop e4 g [] 0;
                 e6 = (if accumulator e5 > updateTime e5 * of_int (maxFrameSkip e5)
                       then e5\<lparr>accumulator := updateTime e5 * of_int (maxFrameSkip e5)\<rparr>
                       else e5);
                 alpha = accumulator e6 / updateTime e6;
                 g7 = (case onRender e6 of None \<Rightarrow> g5 | Some f \<Rightarrow> f alpha g5);
                 calls7 = (case onRender e6 of None \<Rightarrow> calls5 | Some f \<Rightarrow> calls5 @ [RenderCall alpha]);
                 e8 = e6\<lparr>stats := (stats e6)\<lparr>frameCount := frameCount (stats e6) + 1\<rparr>\<rparr>
             in (e8, g7, calls7))"

text \<open>
  \<open>start\<close>, \<open>stop\<close>, \<open>pause\<close>, \<open>resume\<close>, \<open>getStats\<close>. \<open>start\<close> reads the clock
  twice (\<open>tStart\<close>, then \<open>tReset\<close> in \<open>resetStats\<close>) before its call of \<open>gameLoop\<close>.
\<close>

definition start ::
  "'g GameEngine \<Rightarrow> 'g \<Rightarrow> real \<Rightarrow> real \<Rightarrow> real \<Rightarrow> nat \<Rightarrow> 'g GameEngine \<times> 'g \<times> hook_call list" where
  "start e g tStart tReset now handle =
     (if isRunning e then (e, g, [])
      else
        let e1 = e\<lparr>isRunning := True, isPaused := False, lastFrameTime := tStart,
                   lastUpdateTime := tStart, accumulator := 0\<rparr>;
            e2 = resetStats e1 tReset;
            g2 = call_hook (onInit e2) g
        in gameLoop e2 g2 (lastFrameTime e2) now handle)"

definition stop :: "'g GameEngine \<Rightarrow> 'g \<Rightarrow> 'g GameEngine \<times> 'g" where
  "stop e g =
     (if \<not> isRunning e then (e, g)
      else
        let e1 = e\<lparr>isRunning := False\<rparr>;
            e2 = (if frameId e1 \<noteq> None then e1\<lparr>frameId := None\<rparr> else e1)
        in (e2, call_hook (onStop e2) g))"

definition pause :: "'g GameEngine \<Rightarrow> 'g \<Rightarrow> 'g GameEngine \<times> 'g" where
  "pause e g =
     (if \<not> isRunning e \<or> isPaused e then (e, g)
      else
        let e1 = e\<lparr>isPaused := True\<rparr>
        in (e1, call_hook (onPause e1) g))"

definition resume :: "'g GameEngine \<Rightarrow> 'g \<Rightarrow> real \<Rightarrow> 'g GameEngine \<times> 'g" where
  "resume e g now =
     (if \<not> isRunning e \<or> \<not> isPaused e then (e, g)
      else
        let e1 = e\<lparr>isPaused := False, lastFrameTime := now, lastUpdateTime := now\<rparr>
        in (e1, call_hook (onResume e1) g))"

definition getStats :: "'g GameEngine \<Rightarrow> int \<times> int \<times> bool \<times> bool" where
  "getStats e = (fps (stats e), ups (stats e), isRunning e, isPaused e)"

text \<open>
  What happens to an engine over time: the lifecycle calls, and the host's frame
  callback. A frame is given by its delta, the time since \<open>lastFrameTime\<close>.
\<close>

datatype sched_event =
    Start real real real nat
  | Stop
  | Pause
  | Resume real
  | Frame real real nat

fun frame_delta_nonneg :: "sched_event \<Rightarrow> bool" where
  "frame_delta_nonneg (Frame delta now handle) = (0 \<le> delta)"
| "frame_delta_nonneg _ = True"

fun sched_step :: "'g GameEngine \<times> 'g \<Rightarrow> sched_event \<Rightarrow> 'g GameEngine \<times> 'g" where
  "sched_step (e, g) (Start tStart tReset now handle) =
     (case start e g tStart tReset now handle of (e', g', calls) \<Rightarrow> (e', g'))"
| "sched_step (e, g) Stop = stop e g"
| "sched_step (e, g) Pause = pause e g"
| "sched_step (e, g) (Resume now) = resume e g now"
| "sched_step (e, g) (Frame delta now handle) =
     (case gameLoop e g (lastFrameTime e + delta) now handle of (e', g', calls) \<Rightarrow> (e', g'))"

definition run_engine :: "'g GameEngine \<times> 'g \<Rightarrow> sched_event list \<Rightarrow> 'g GameEngine \<times> 'g" where
  "run_engine = foldl sched_step"

definition accumulator_in_bounds :: "'g GameEngine \<Rightarrow> bool" where
  "accumulator_in_bounds e =
     (0 \<le> accumulator e \<and> accumulator e \<le> updateTime e * of_int (maxFrameSkip e))"


text \<open>The options that \<open>initGame\<close> passes to the constructor.\<close>

definition initGame_options :: options where
  "initGame_options =
     \<lparr> opt_targetFPS = Some 60, opt_targetUPS = Some 60, opt_maxFrameSkip = Some 5,
       opt_gravity = Some 9.81, opt_pixelsPerMeter = Some 100,
       opt_taxiStartX = Some 0.5, opt_taxiStartY = Some 0.5,
       opt_thrusterForce = Some 1500, opt_regularFlightThrust = Some 500,
       opt_hoverThrust = None, opt_hoverDamping = Some 800, opt_aiBotCount = Some 2 \<rparr>"

section \<open>The physics model: the taxi\<close>

text \<open>
  The global \<open>taxi\<close>, the global \<open>keys\<close> (its properties \<open>w\<close>, \<open>s\<close>, \<open>a\<close>, \<open>d\<close> are
  the fields \<open>key_w\<close>, \<open>key_s\<close>, \<open>key_a\<close>, \<open>key_d\<close>), and what the code reads from the
  page: the size of the window and the element \<open>taxi-sprite\<close>, which may be missing.
  A length in pixels that the code writes to a style is kept as the number.
\<close>

record taxi =
  x :: real
  y :: real
  vx :: real
  vy :: real
  onGround :: bool
  hoverMode :: bool
  facingRight :: bool
  landingGear :: bool

record keys =
  key_w :: bool
  key_s :: bool
  key_a :: bool
  key_d :: bool

record sprite =
  offsetWidth :: real
  offsetHeight :: real
  src :: string
  style_left :: real
  style_top :: real
  style_transform :: string
  style_visibility :: string

record game_state =
  taxi :: taxi
  keys :: keys
  innerWidth :: real
  innerHeight :: real
  taxiSprite :: "sprite option"

definition gravityPixels :: "physics_config \<Rightarrow> real" where
  "gravityPixels cfg = gravity cfg * pixelsPerMeter cfg"

text \<open>The local \<open>hoverThrust\<close> of \<open>updateGame\<close>: the gravity when the option is \<open>null\<close>.\<close>

definition hoverThrust_used :: "physics_config \<Rightarrow> real" where
  "hoverThrust_used cfg = (case hoverThrust cfg of None \<Rightarrow> gravityPixels cfg | Some h \<Rightarrow> h)"

text \<open>The branch \<open>if (taxi.hoverMode)\<close> of \<open>updateGame\<close>, statement by statement.\<close>

definition hoverForces :: "physics_config \<Rightarrow> keys \<Rightarrow> real \<Rightarrow> taxi \<Rightarrow> taxi" where
  "hoverForces cfg k deltaTime t0 =
     (let t1 = (if vy t0 > 0
                then (let t = t0\<lparr>vy := vy t0 - hoverDamping cfg * deltaTime\<rparr>
                      in if vy t < 0 then t\<lparr>vy := 0\<rparr> else t)
                else if vy t0 < 0
                then (let t = t0\<lparr>vy := vy t0 + hoverDamping cfg * deltaTime\<rparr>
                      in if vy t > 0 then t\<lparr>vy := 0\<rparr> else t)
                else t0);
          t2 = (if vx t1 > 0
                then (let t = t1\<lparr>vx := vx t1 - hoverDamping cfg * deltaTime\<rparr>
                      in if vx t < 0 then t\<lparr>vx := 0\<rparr> else t)
                else if vx t1 < 0
                then (let t = t1\<lparr>vx := vx t1 + hoverDamping cfg * deltaTime\<rparr>
                      in if vx t > 0 then t\<lparr>vx := 0\<rparr> else t)
                else t1);
          t3 = t2\<lparr>vy := vy t2 - hoverThrust_used cfg * deltaTime\<rparr>;
          t4 = (if key_w k then t3\<lparr>vy := vy t3 - thrusterForce cfg * deltaTime\<rparr> else t3);
          t5 = (if key_s k then t4\<lparr>vy := vy t4 + thrusterForce cfg * deltaTime\<rparr> else t4);
          t6 = t5\<lparr>vy := vy t5 + gravityPixels cfg * deltaTime\<rparr>;
          t7 = (if key_a k
                then t6\<lparr>vx := vx t6 - thrusterForce cfg * deltaTime, facingRight := False\<rparr>
                else t6);
          t8 = (if key_d k
                then t7\<lparr>vx := vx t7 + thrusterForce cfg * deltaTime, facingRight := True\<rparr>
                else t7)
      in t8)"

text \<open>The \<open>else\<close> branch: regular mode.\<close>

definition regularForces :: "physics_config \<Rightarrow> keys \<Rightarrow> real \<Rightarrow> taxi \<Rightarrow> taxi" where
  "regularForces cfg k deltaTime t0 =
     (let t1 = t0\<lparr>vy := vy t0 - regularFlightThrust cfg * deltaTime\<rparr>;
          t2 = (if key_w k then t1\<lparr>vy := vy t1 - thrusterForce cfg * deltaTime\<rparr> else t1);
          t3 = (if key_s k then t2\<lparr>vy := vy t2 + thrusterForce cfg * deltaTime\<rparr> else t2);
          t4 = (if key_a k
                then t3\<lparr>vx := vx t3 - thrusterForce cfg * deltaTime, facingRight := False\<rparr>
                else t3);
          t5 = (if key_d k
                then t4\<lparr>vx := vx t4 + thrusterForce cfg * deltaTime, facingRight := True\<rparr>
                else t4);
          t6 = t5\<lparr>vy := vy t5 + gravityPixels cfg * deltaTime\<rparr>
      in t6)"

text \<open>The position update that follows both branches.\<close>

definition integrate :: "real \<Rightarrow> taxi \<Rightarrow> taxi" where
  "integrate deltaTime t0 =
     (let t1 = t0\<lparr>x := x t0 + vx t0 * deltaTime\<rparr>;
          t2 = t1\<lparr>y := y t1 + vy t1 * deltaTime\<rparr>
      in t2)"

text \<open>
  The taxi of \<open>updateGame\<close> when it reaches the comment
  \<open>Check collision with screen boundaries\<close>: velocity and position are updated,
  no boundary is applied yet.
\<close>

definition integrated :: "physics_config \<Rightarrow> real \<Rightarrow> game_state \<Rightarrow> taxi" where
  "integrated cfg deltaTime g =
     integrate deltaTime
       (if hoverMode (taxi g) then hoverForces cfg (keys g) deltaTime (taxi g)
        else regularForces cfg (keys g) deltaTime (taxi g))"

text \<open>The locals \<open>taxiWidth\<close>, \<open>taxiHeight\<close> and the four boundaries of \<open>updateGame\<close>.\<close>

definition taxiWidth :: "game_state \<Rightarrow> real" where
  "taxiWidth g = (case taxiSprite g of None \<Rightarrow> 0 | Some sp \<Rightarrow> offsetWidth sp)"

definition taxiHeight :: "game_state \<Rightarrow> real" where
  "taxiHeight g = (case taxiSprite g of None \<Rightarrow> 0 | Some sp \<Rightarrow> offsetHeight sp)"

definition leftBoundary :: "game_state \<Rightarrow> real" where
  "leftBoundary g = taxiWidth g / 2"

definition rightBoundary :: "game_state \<Rightarrow> real" where
  "rightBoundary g = innerWidth g - taxiWidth g / 2"

definition topBoundary :: real where
  "topBoundary = 0"

definition bottomBoundary :: "game_state \<Rightarrow> real" where
  "bottomBoundary g = innerHeight g - taxiHeight g"

definition collideHorizontal :: "real \<Rightarrow> real \<Rightarrow> taxi \<Rightarrow> taxi" where
  "collideHorizontal leftB rightB t =
     (if x t < leftB then t\<lparr>x := leftB, vx := 0\<rparr>
      else if x t > rightB then t\<lparr>x := rightB, vx := 0\<rparr>
      else t)"

definition collideVertical :: "real \<Rightarrow> real \<Rightarrow> taxi \<Rightarrow> taxi" where
  "collideVertical topB bottomB t =
     (if y t < topB then t\<lparr>y := topB, vy := 0, onGround := False\<rparr>
      else if y t \<ge> bottomB then t\<lparr>y := bottomB, vy := 0, onGround := True\<rparr>
      else t\<lparr>onGround := False\<rparr>)"

text \<open>\<open>updateGame(deltaTime)\<close>; \<open>cfg\<close> is \<open>gameEngine.config\<close>.\<close>

definition updateGame :: "physics_config \<Rightarrow> real \<Rightarrow> game_state \<Rightarrow> game_state" where
  "updateGame cfg deltaTime g =
     (let t1 = integrated cfg deltaTime g;
          t2 = collideHorizontal (leftBoundary g) (rightBoundary g) t1;
          t3 = collideVertical topBoundary (bottomBoundary g) t2
      in g\<lparr>taxi := t3\<rparr>)"

text \<open>A run of update calls, one per element of the list of deltas: the state after each.\<close>

fun run_updates :: "physics_config \<Rightarrow> real list \<Rightarrow> game_state \<Rightarrow> game_state list" where
  "run_updates cfg [] g = []"
| "run_updates cfg (deltaTime # rest) g =
     updateGame cfg deltaTime g # run_updates cfg rest (updateGame cfg deltaTime g)"

text \<open>The trajectory of a run: \<open>(x, y, vx, vy)\<close> after each update.\<close>

definition kinematics :: "game_state \<Rightarrow> real \<times> real \<times> real \<times> real" where
  "kinematics g = (x (taxi g), y (taxi g), vx (taxi g), vy (taxi g))"

definition trajectory :: "physics_config \<Rightarrow> real list \<Rightarrow> game_state \<Rightarrow> (real \<times> real \<times> real \<times> real) list" where
  "trajectory cfg deltas g = map kinematics (run_updates cfg deltas g)"

text \<open>
  Whether an update touches the upper or lower boundary: the integrated \<open>y\<close> takes one
  of the first two branches of the vertical check. A run is free of such contact when
  none of its updates has it.
\<close>

definition vertical_contact :: "physics_config \<Rightarrow> real \<Rightarrow> game_state \<Rightarrow> bool" where
  "vertical_contact cfg deltaTime g =
     (y (integrated cfg deltaTime g) < topBoundary \<or> y (integrated cfg deltaTime g) \<ge> bottomBoundary g)"

fun no_vertical_contact :: "physics_config \<Rightarrow> real list \<Rightarrow> game_state \<Rightarrow> bool" where
  "no_vertical_contact cfg [] g = True"
| "no_vertical_contact cfg (deltaTime # rest) g =
     (\<not> vertical_contact cfg deltaTime g \<and> no_vertical_contact cfg rest (updateGame cfg deltaTime g))"

text \<open>Whether the \<open>y\<close> of a list of states increases strictly from each state to the next.\<close>

fun y_increasing :: "real \<Rightarrow> game_state list \<Rightarrow> bool" where
  "y_increasing y0 [] = True"
| "y_increasing y0 (g # gs) = (y0 < y (taxi g) \<and> y_increasing (y (taxi g)) gs)"

text \<open>\<open>renderGame(alpha)\<close>: it writes to the sprite only.\<close>

definition renderGame :: "real \<Rightarrow> game_state \<Rightarrow> game_state" where
  "renderGame alpha g =
     (case taxiSprite g of
        None \<Rightarrow> g
      | Some sp \<Rightarrow>
          let sp1 = (if landingGear (taxi g) then sp\<lparr>src := ''assets/taxi-gear.png''\<rparr>
                     else sp\<lparr>src := ''assets/taxi.png''\<rparr>);
              width = js_or (Some (offsetWidth sp1)) 0;
              sp2 = sp1\<lparr>style_left := x (taxi g) - width / 2\<rparr>;
              sp3 = sp2\<lparr>style_top := y (taxi g)\<rparr>;
              sp4 = (if facingRight (taxi g) then sp3\<lparr>style_transform := ''scaleX(-1)''\<rparr>
                     else sp3\<lparr>style_transform := ''scaleX(1)''\<rparr>)
          in g\<lparr>taxiSprite := Some sp4\<rparr>)"

text \<open>
  The callback \<open>onInit\<close> that \<open>initGame\<close> installs, as far as it writes to the taxi and
  to its sprite (the sprites of the AI bots are elements of the page only).
\<close>

definition initTaxi :: "physics_config \<Rightarrow> game_state \<Rightarrow> game_state" where
  "initTaxi cfg g =
     (let screenWidth = innerWidth g;
          screenHeight = innerHeight g;
          t = (taxi g)\<lparr>x := screenWidth * taxiStartX cfg, y := screenHeight * taxiStartY cfg,
                       vx := 0, vy := 0, onGround := False, hoverMode := False,
                       facingRight := False, landingGear := False\<rparr>;
          g1 = g\<lparr>taxi := t\<rparr>
      in case taxiSprite g1 of
           None \<Rightarrow> g1
         | Some sp \<Rightarrow>
             let sp1 = sp\<lparr>style_visibility := ''visible''\<rparr>;
                 sp2 = sp1\<lparr>src := (if landingGear t then ''assets/taxi-gear.png'' else ''assets/taxi.png'')\<rparr>;
                 width = js_or (Some (offsetWidth sp2)) 0;
                 sp3 = sp2\<lparr>style_left := x t - width / 2\<rparr>;
                 sp4 = sp3\<lparr>style_top := y t\<rparr>
             in g1\<lparr>taxiSprite := Some sp4\<rparr>)"

section \<open>The game: engine, taxi and keyboard\<close>

text \<open>
  The engine that \<open>initGame\<close> builds and the callbacks it installs. \<open>onPause\<close> and
  \<open>onResume\<close> stay \<open>null\<close>; \<open>onStop\<close> only writes to the console.
\<close>

definition install_callbacks :: "game_state GameEngine \<Rightarrow> game_state GameEngine" where
  "install_callbacks e =
     e\<lparr>onInit := Some (initTaxi (config e)),
       onUpdate := Some (updateGame (config e)),
       onRender := Some renderGame,
       onStop := Some (\<lambda>g. g)\<rparr>"

definition initGame_engine :: "game_state GameEngine" where
  "initGame_engine = install_callbacks (new_GameEngine initGame_options)"

text \<open>
  The globals together. \<open>screenActive\<close> tells whether the element \<open>game-screen\<close> has
  the class \<open>active\<close>, which both keyboard listeners test first.
\<close>

record world =
  gameEngine :: "game_state GameEngine"
  game :: game_state
  screenActive :: bool

text \<open>\<open>String.prototype.toLowerCase\<close>, on the letters A to Z.\<close>

definition lower_char :: "char \<Rightarrow> char" where
  "lower_char c =
     (case map_of (zip ''ABCDEFGHIJKLMNOPQRSTUVWXYZ'' ''abcdefghijklmnopqrstuvwxyz'') c of
        None \<Rightarrow> c
      | Some l \<Rightarrow> l)"

definition toLowerCase :: "string \<Rightarrow> string" where
  "toLowerCase str = map lower_char str"

text \<open>\<open>keys[key] = value\<close> for \<open>key\<close> one of \<open>w\<close>, \<open>s\<close>, \<open>a\<close>, \<open>d\<close>.\<close>

definition set_key :: "string \<Rightarrow> bool \<Rightarrow> keys \<Rightarrow> keys" where
  "set_key key v k =
     (if key = ''w'' then k\<lparr>key_w := v\<rparr>
      else if key = ''s'' then k\<lparr>key_s := v\<rparr>
      else if key = ''a'' then k\<lparr>key_a := v\<rparr>
      else if key = ''d'' then k\<lparr>key_d := v\<rparr>
      else k)"

definition with_engine :: "world \<Rightarrow> game_state GameEngine \<times> game_state \<Rightarrow> world" where
  "with_engine w r = w\<lparr>gameEngine := fst r, game := snd r\<rparr>"

text \<open>
  The \<open>keydown\<close> listener, block by block: pause and resume, the hover mode toggle,
  the landing gear toggle, the thruster controls. \<open>eventKey\<close> is \<open>event.key\<close>, \<open>key\<close> its
  lower case; \<open>now\<close> is the clock that \<open>resume\<close> reads. The sounds are not part of the
  state.
\<close>

definition keydown_pause :: "string \<Rightarrow> real \<Rightarrow> world \<Rightarrow> world" where
  "keydown_pause key now w =
     (if key = ''p''
      then (if isPaused (gameEngine w)
            then with_engine w (resume (gameEngine w) (game w) now)
            else if isRunning (gameEngine w)
            then with_engine w (pause (gameEngine w) (game w))
            else w)
      else w)"

definition keydown_hover :: "string \<Rightarrow> world \<Rightarrow> world" where
  "keydown_hover key w =
     (if key = ''h'' \<or> key = ''H''
      then (if isRunning (gameEngine w) \<and> \<not> isPaused (gameEngine w)
            then w\<lparr>game := (game w)\<lparr>taxi := (taxi (game w))
                      \<lparr>hoverMode := \<not> hoverMode (taxi (game w))\<rparr>\<rparr>\<rparr>
            else w)
      else w)"

definition keydown_gear :: "string \<Rightarrow> world \<Rightarrow> world" where
  "keydown_gear eventKey w =
     (if eventKey = '' ''
      then (if isRunning (gameEngine w) \<and> \<not> isPaused (gameEngine w)
            then w\<lparr>game := (game w)\<lparr>taxi := (taxi (game w))
                      \<lparr>landingGear := \<not> landingGear (taxi (game w))\<rparr>\<rparr>\<rparr>
            else w)
      else w)"

definition keydown_thrusters :: "string \<Rightarrow> string \<Rightarrow> world \<Rightarrow> world" where
  "keydown_thrusters key eventKey w =
     (if isRunning (gameEngine w) \<and> \<not> isPaused (gameEngine w)
      then (if key = ''w'' \<or> key = ''s'' \<or> key = ''a'' \<or> key = ''d''
            then w\<lparr>game := (game w)\<lparr>keys := set_key key True (keys (game w))\<rparr>\<rparr>
            else if eventKey = ''ArrowUp''
            then w\<lparr>game := (game w)\<lparr>keys := (keys (game w))\<lparr>key_w := True\<rparr>\<rparr>\<rparr>
            else if eventKey = ''ArrowDown''
            then w\<lparr>game := (game w)\<lparr>keys := (keys (game w))\<lparr>key_s := True\<rparr>\<rparr>\<rparr>
            else if eventKey = ''ArrowLeft''
            then w\<lparr>game := (game w)\<lparr>keys := (keys (game w))\<lparr>key_a := True\<rparr>\<rparr>\<rparr>
            else if eventKey = ''ArrowRight''
            then w\<lparr>game := (game w)\<lparr>keys := (keys (game w))\<lparr>key_d := True\<rparr>\<rparr>\<rparr>
            else w)
      else w)"

definition keydown :: "string \<Rightarrow> real \<Rightarrow> world \<Rightarrow> world" where
  "keydown eventKey now w0 =
     (if \<not> screenActive w0 then w0
      else
        let key = toLowerCase eventKey;
            w1 = keydown_pause key now w0;
            w2 = keydown_hover key w1;
            w3 = keydown_gear eventKey w2;
            w4 = keydown_thrusters key eventKey w3
        in w4)"

text \<open>The \<open>keyup\<close> listener.\<close>

definition keyup :: "string \<Rightarrow> world \<Rightarrow> world" where
  "keyup eventKey w0 =
     (if \<not> screenActive w0 then w0
      else
        let key = toLowerCase eventKey
        in if key = ''w'' \<or> key = ''s'' \<or> key = ''a'' \<or> key = ''d''
           then w0\<lparr>game := (game w0)\<lparr>keys := set_key key False (keys (game w0))\<rparr>\<rparr>
           else if eventKey = ''ArrowUp''
           then w0\<lparr>game := (game w0)\<lparr>keys := (keys (game w0))\<lparr>key_w := False\<rparr>\<rparr>\<rparr>
           else if eventKey = ''ArrowDown''
           then w0\<lparr>game := (game w0)\<lparr>keys := (keys (game w0))\<lparr>key_s := False\<rparr>\<rparr>\<rparr>
           else if eventKey = ''ArrowLeft''
           then w0\<lparr>game := (game w0)\<lparr>keys := (keys (game w0))\<lparr>key_a := False\<rparr>\<rparr>\<rparr>
           else if eventKey = ''ArrowRight''
           then w0\<lparr>game := (game w0)\<lparr>keys := (keys (game w0))\<lparr>key_d := False\<rparr>\<rparr>\<rparr>
           else w0)"

text \<open>
  What the host delivers to a running page: key events and animation frames (the
  time of the frame, the clock inside \<open>updateStats\<close>, the next request's handle). A
  key-down event carries \<open>event.key\<close>, \<open>event.repeat\<close> (true on the events that the host
  repeats while the key stays down) and the clock that \<open>resume\<close> would read. The listener
  never reads \<open>event.repeat\<close>.
\<close>

datatype event =
    KeyDown string bool real
  | KeyUp string
  | AnimationFrame real real nat

fun world_step :: "world \<Rightarrow> event \<Rightarrow> world" where
  "world_step w (KeyDown eventKey repeat now) = keydown eventKey now w"
| "world_step w (KeyUp eventKey) = keyup eventKey w"
| "world_step w (AnimationFrame currentTime now handle) =
     (case gameLoop (gameEngine w) (game w) currentTime now handle of
        (e', g', calls) \<Rightarrow> w\<lparr>gameEngine := e', game := g'\<rparr>)"

definition run_events :: "world \<Rightarrow> event list \<Rightarrow> world" where
  "run_events = foldl world_step"

text \<open>
  A key-down event of the hover key: the test of the hover block succeeds on its
  \<open>event.key\<close>.
\<close>

fun hover_keydown :: "event \<Rightarrow> bool" where
  "hover_keydown (KeyDown eventKey repeat now) =
     (let key = toLowerCase eventKey in key = ''h'' \<or> key = ''H'')"
| "hover_keydown _ = False"

text \<open>A key-down event of the pause key.\<close>

fun pause_keydown :: "event \<Rightarrow> bool" where
  "pause_keydown (KeyDown eventKey repeat now) = (toLowerCase eventKey = ''p'')"
| "pause_keydown _ = False"

text \<open>The engine carries the callbacks that \<open>initGame\<close> installs.\<close>

definition callbacks_installed :: "world \<Rightarrow> bool" where
  "callbacks_installed w =
     (onInit (gameEngine w) = Some (initTaxi (config (gameEngine w))) \<and>
      onUpdate (gameEngine w) = Some (updateGame (config (gameEngine w))) \<and>
      onRender (gameEngine w) = Some renderGame \<and>
      onPause (gameEngine w) = None \<and>
      onResume (gameEngine w) = None \<and>
      onStop (gameEngine w) = Some (\<lambda>g. g))"

section \<open>Double precision\<close>






definition updateStats_rnd ::
  "(real \<Rightarrow> real) \<Rightarrow> 'g GameEngine \<Rightarrow> real \<Rightarrow> real \<Rightarrow> 'g GameEngine" where
  "updateStats_rnd rnd e deltaTime now =
     (let elapsed = rnd (now - lastStatsTime (stats e))
      in if elapsed \<ge> 1000
         then e\<lparr>stats := \<lparr> fps = Math_round (rnd (rnd (real (frameCount (stats e)) * 1000) / elapsed)),
                          ups = Math_round (rnd (rnd (real (updateCount (stats e)) * 1000) / elapsed)),
                          frameCount = 0,
                          updateCount = 0,
                          lastStatsTime = now \<rparr>\<rparr>
         else e)"

function updateLoop_rnd ::
  "(real \<Rightarrow> real) \<Rightarrow> 'g GameEngine \<Rightarrow> 'g \<Rightarrow> hook_call list \<Rightarrow> int
     \<Rightarrow> 'g GameEngine \<times> 'g \<times> hook_call list" where
  "updateLoop_rnd rnd e g calls n =
     (if accumulator e \<ge> updateTime e \<and> n < maxFrameSkip e
      then updateLoop_rnd rnd
             (e\<lparr>accumulator := rnd (accumulator e - updateTime e),
                stats := (stats e)\<lparr>updateCount := updateCount (stats e) + 1\<rparr>\<rparr>)
             (case onUpdate e of None \<Rightarrow> g | Some f \<Rightarrow> f (rnd (updateTime e / 1000)) g)
             (case onUpdate e of None \<Rightarrow> calls
              | Some f \<Rightarrow> calls @ [UpdateCall (rnd (updateTime e / 1000))])
             (n + 1)
      else (e, g, calls))"
  by pat_completeness auto
termination
  by (relation "measure (\<lambda>(rnd, e, g, calls, n). nat (maxFrameSkip e - n))") auto

declare updateLoop_rnd.simps [simp del]


definition gameLoop_rnd ::
  "(real \<Rightarrow> real) \<Rightarrow> 'g GameEngine \<Rightarrow> 'g \<Rightarrow> real \<Rightarrow> real \<Rightarrow> nat
     \<Rightarrow> 'g GameEngine \<times> 'g \<times> hook_call list" where
  "gameLoop_rnd rnd e g currentTime now handle =
     (if \<not> isRunning e then (e, g, [])
      else
        let e1 = e\<lparr>frameId := Some handle\<rparr>
        in if isPaused e1 then (e1, g, [])
           else
             let deltaTime = rnd (currentTime - lastFrameTime e1);
                 e2 = e1\<lparr>lastFrameTime := currentTime\<rparr>;
                 e3 = updateStats_rnd rnd e2 deltaTime now;
                 e4 = e3\<lparr>accumulator := rnd (accumulator e3 + deltaTime)\<rparr>;
                 (e5, g5, calls5) = updateLoop_rnd rnd e4 g [] 0;
                 e6 = (if accumulator e5 > rnd (updateTime e5 * of_int (maxFrameSkip e5))
                       then e5\<lparr>accumulator := rnd (updateTime e5 * of_int (maxFrameSkip e5))\<rparr>
                       else e5);
                 alpha = rnd (accumulator e6 / updateTime e6);
                 g7 = (case onRender e6 of None \<Rightarrow> g5 | Some f \<Rightarrow> f alpha g5);
                 calls7 = (case onRender e6 of None \<Rightarrow> calls5
                           | Some f \<Rightarrow> calls5 @ [RenderCall alpha]);
                 e8 = e6\<lparr>stats := (stats e6)\<lparr>frameCount := frameCount (stats e6) + 1\<rparr>\<rparr>
             in (e8, g7, calls7))"



section \<open>Auxiliary definitions\<close>

text \<open>
  The engine of \<open>gameLoop\<close> when it reaches its \<open>while\<close> loop: the frame is requested,
  the clock is read, the statistics are rolled and the delta is added to the accumulator.
\<close>

definition pre_loop :: "'g GameEngine \<Rightarrow> real \<Rightarrow> real \<Rightarrow> nat \<Rightarrow> 'g GameEngine" where
  "pre_loop e currentTime now handle =
     (let e1 = e\<lparr>frameId := Some handle\<rparr>;
          deltaTime = currentTime - lastFrameTime e1;
          e2 = e1\<lparr>lastFrameTime := currentTime\<rparr>;
          e3 = updateStats e2 deltaTime now
      in e3\<lparr>accumulator := accumulator e3 + deltaTime\<rparr>)"

text \<open>
  The velocity component that the damping statements of hover mode leave, from the
  component \<open>v\<close> before them and the product \<open>d\<close> of \<open>hoverDamping\<close> and \<open>deltaTime\<close>.
\<close>

definition damped :: "real \<Rightarrow> real \<Rightarrow> real" where
  "damped d v =
     (if v > 0 then (if v - d < 0 then 0 else v - d)
      else if v < 0 then (if v + d > 0 then 0 else v + d)
      else v)"

text \<open>
  Two states of the game give \<open>updateGame\<close> the same inputs: they agree on the position
  and the velocity of the taxi, on its mode, on the keys held and on the sizes of the
  window and of the sprite. They may differ in everything else.
\<close>

definition same_inputs :: "game_state \<Rightarrow> game_state \<Rightarrow> bool" where
  "same_inputs g1 g2 =
     (x (taxi g1) = x (taxi g2) \<and> y (taxi g1) = y (taxi g2) \<and>
      vx (taxi g1) = vx (taxi g2) \<and> vy (taxi g1) = vy (taxi g2) \<and>
      hoverMode (taxi g1) = hoverMode (taxi g2) \<and>
      keys g1 = keys g2 \<and>
      innerWidth g1 = innerWidth g2 \<and> innerHeight g1 = innerHeight g2 \<and>
      taxiWidth g1 = taxiWidth g2 \<and> taxiHeight g1 = taxiHeight g2)"

text \<open>
  Concrete states: the game as \<open>onInit\<close> leaves it in a window of 1920 by 1080 with a
  sprite of 64 by 32, the configuration of \<open>initGame\<close>, the taxi placed at a given
  position with a given velocity, and a window exactly as high as the sprite with the
  taxi at the top and \<open>w\<close> held.
\<close>

definition sample_game :: game_state where
  "sample_game =
     \<lparr> taxi = \<lparr> x = 960, y = 540, vx = 0, vy = 0, onGround = False, hoverMode = False,
                facingRight = False, landingGear = False \<rparr>,
       keys = \<lparr> key_w = False, key_s = False, key_a = False, key_d = False \<rparr>,
       innerWidth = 1920,
       innerHeight = 1080,
       taxiSprite = Some \<lparr> offsetWidth = 64, offsetHeight = 32, src = ''assets/taxi.png'',
                           style_left = 928, style_top = 540, style_transform = ''scaleX(1)'',
                           style_visibility = ''visible'' \<rparr> \<rparr>"

definition sample_config :: physics_config where
  "sample_config = config (new_GameEngine initGame_options :: game_state GameEngine)"

definition place :: "real \<Rightarrow> real \<Rightarrow> real \<Rightarrow> real \<Rightarrow> game_state \<Rightarrow> game_state" where
  "place px py pvx pvy g = g\<lparr>taxi := (taxi g)\<lparr>x := px, y := py, vx := pvx, vy := pvy\<rparr>\<rparr>"

definition flat_game :: game_state where
  "flat_game = sample_game\<lparr>innerHeight := 32, taxi := (taxi sample_game)\<lparr>y := 0\<rparr>,
                 keys := (keys sample_game)\<lparr>key_w := True\<rparr>\<rparr>"

text \<open>
  The hover flag of the taxi, a world in which the engine of \<open>initGame\<close> runs, and the
  number of hover key-down events in a list of events that arrive while the screen is
  active and the engine is running and not paused.
\<close>

abbreviation hover :: "world \<Rightarrow> bool" where
  "hover w \<equiv> hoverMode (taxi (game w))"

definition running_world :: world where
  "running_world =
     \<lparr> gameEngine = initGame_engine\<lparr>isRunning := True\<rparr>, game = sample_game, screenActive = True \<rparr>"

fun hover_flips :: "world \<Rightarrow> event list \<Rightarrow> nat" where
  "hover_flips w [] = 0"
| "hover_flips w (ev # evs) =
     (if hover_keydown ev \<and> screenActive w \<and> isRunning (gameEngine w) \<and> \<not> isPaused (gameEngine w)
      then 1 else 0) + hover_flips (world_step w ev) evs"

section \<open>The accumulator stays within its bounds\<close>

lemma updateLoop_fields:
  "updateLoop e g calls n = (e', g', calls') \<Longrightarrow>
     updateTime e' = updateTime e \<and> maxFrameSkip e' = maxFrameSkip e \<and>
     isRunning e' = isRunning e \<and> isPaused e' = isPaused e \<and>
     onRender e' = onRender e \<and> onUpdate e' = onUpdate e \<and> config e' = config e"
proof (induction e g calls n rule: updateLoop.induct)
  case (1 e g calls n)
  show ?case
  proof (cases "accumulator e \<ge> updateTime e \<and> n < maxFrameSkip e")
    case True
    with "1.prems" have
      "updateLoop
             (e\<lparr>accumulator := accumulator e - updateTime e,
                stats := (stats e)\<lparr>updateCount := updateCount (stats e) + 1\<rparr>\<rparr>)
             (case onUpdate e of None \<Rightarrow> g | Some f \<Rightarrow> f (updateTime e / 1000) g)
             (case onUpdate e of None \<Rightarrow> calls | Some f \<Rightarrow> calls @ [UpdateCall (updateTime e / 1000)])
             (n + 1) = (e', g', calls')"
      by (subst (asm) updateLoop.simps) simp
    from "1.IH"[OF True this] show ?thesis by simp
  next
    case False
    with "1.prems" show ?thesis by (subst (asm) updateLoop.simps) auto
  qed
qed

lemma updateLoop_acc_nonneg:
  "updateLoop e g calls n = (e', g', calls') \<Longrightarrow> 0 < updateTime e \<Longrightarrow> 0 \<le> accumulator e \<Longrightarrow>
     0 \<le> accumulator e'"
proof (induction e g calls n rule: updateLoop.induct)
  case (1 e g calls n)
  show ?case
  proof (cases "accumulator e \<ge> updateTime e \<and> n < maxFrameSkip e")
    case True
    with "1.prems"(1) have
      "updateLoop
             (e\<lparr>accumulator := accumulator e - updateTime e,
                stats := (stats e)\<lparr>updateCount := updateCount (stats e) + 1\<rparr>\<rparr>)
             (case onUpdate e of None \<Rightarrow> g | Some f \<Rightarrow> f (updateTime e / 1000) g)
             (case onUpdate e of None \<Rightarrow> calls | Some f \<Rightarrow> calls @ [UpdateCall (updateTime e / 1000)])
             (n + 1) = (e', g', calls')"
      by (subst (asm) updateLoop.simps) simp
    from "1.IH"[OF True this] True "1.prems"(2) show ?thesis by simp
  next
    case False
    with "1.prems" show ?thesis by (subst (asm) updateLoop.simps) auto
  qed
qed

lemma gameLoop_fields:
  "gameLoop e g t now h = (e', g', calls') \<Longrightarrow>
     updateTime e' = updateTime e \<and> maxFrameSkip e' = maxFrameSkip e"
  by (auto simp: gameLoop_def Let_def updateStats_def split: if_splits prod.splits dest!: updateLoop_fields)

lemma updateStats_fields:
  "accumulator (updateStats e d now) = accumulator e \<and>
   updateTime (updateStats e d now) = updateTime e \<and>
   maxFrameSkip (updateStats e d now) = maxFrameSkip e"
  by (simp add: updateStats_def Let_def)

lemma gameLoop_bounds:
  assumes run: "gameLoop e g t now h = (e', g', calls')"
    and U: "0 < updateTime e" and M: "0 \<le> maxFrameSkip e"
    and inv: "accumulator_in_bounds e" and dt: "lastFrameTime e \<le> t"
  shows "accumulator_in_bounds e'"
proof (cases "isRunning e \<and> \<not> isPaused e")
  case False
  have "e' = e \<or> e' = e\<lparr>frameId := Some h\<rparr>"
  proof (cases "isRunning e")
    case True
    with False have "isPaused e" by simp
    with True run show ?thesis by (simp add: gameLoop_def)
  next
    case False
    with run show ?thesis by (simp add: gameLoop_def)
  qed
  with inv show ?thesis by (auto simp: accumulator_in_bounds_def)
next
  case True
  define e4 where "e4 =
    (updateStats (e\<lparr>frameId := Some h, lastFrameTime := t\<rparr>) (t - lastFrameTime e) now)
      \<lparr>accumulator := accumulator e + (t - lastFrameTime e)\<rparr>"
  obtain e5 g5 c5 where L: "updateLoop e4 g [] 0 = (e5, g5, c5)"
    by (cases "updateLoop e4 g [] 0") auto
  have e4: "updateTime e4 = updateTime e" "maxFrameSkip e4 = maxFrameSkip e"
    "0 \<le> accumulator e4"
    using inv dt by (simp_all add: e4_def updateStats_fields accumulator_in_bounds_def)
  from updateLoop_fields[OF L] e4 have e5: "updateTime e5 = updateTime e"
    "maxFrameSkip e5 = maxFrameSkip e" by simp_all
  from updateLoop_acc_nonneg[OF L] e4 U have nonneg: "0 \<le> accumulator e5" by simp
  have bound: "0 \<le> updateTime e * of_int (maxFrameSkip e)" using U M by simp
  from run True L have "accumulator e' =
      (if accumulator e5 > updateTime e5 * of_int (maxFrameSkip e5)
       then updateTime e5 * of_int (maxFrameSkip e5) else accumulator e5)
      \<and> updateTime e' = updateTime e5 \<and> maxFrameSkip e' = maxFrameSkip e5"
    by (auto simp: gameLoop_def Let_def e4_def updateStats_fields)
  with e5 nonneg bound show ?thesis
    by (auto simp: accumulator_in_bounds_def)
qed

lemma start_bounds:
  assumes run: "start e g tStart tReset now h = (e', g', calls')"
    and U: "0 < updateTime e" and M: "0 \<le> maxFrameSkip e"
    and inv: "accumulator_in_bounds e"
  shows "accumulator_in_bounds e' \<and> updateTime e' = updateTime e \<and> maxFrameSkip e' = maxFrameSkip e"
proof (cases "isRunning e")
  case True
  with run inv show ?thesis by (simp add: start_def)
next
  case False
  define e2 where "e2 = resetStats (e\<lparr>isRunning := True, isPaused := False, lastFrameTime := tStart,
                   lastUpdateTime := tStart, accumulator := 0\<rparr>) tReset"
  have e2: "updateTime e2 = updateTime e" "maxFrameSkip e2 = maxFrameSkip e"
     "accumulator e2 = 0"
    by (simp_all add: e2_def resetStats_def)
  from run False have G: "gameLoop e2 (call_hook (onInit e2) g) (lastFrameTime e2) now h = (e', g', calls')"
    by (simp add: start_def Let_def e2_def)
  have "accumulator_in_bounds e2" using e2 U M by (simp add: accumulator_in_bounds_def)
  from gameLoop_bounds[OF G _ _ this] gameLoop_fields[OF G] e2 U M show ?thesis by simp
qed

lemma sched_step_bounds:
  assumes "sched_step (e, g) ev = (e', g')"
    and "0 < updateTime e" and "0 \<le> maxFrameSkip e"
    and "accumulator_in_bounds e" and "frame_delta_nonneg ev"
  shows "accumulator_in_bounds e' \<and> updateTime e' = updateTime e \<and> maxFrameSkip e' = maxFrameSkip e"
proof (cases ev)
  case (Start a b c d)
  with assms show ?thesis by (auto split: prod.splits dest: start_bounds)
next
  case Stop
  with assms show ?thesis by (auto simp: stop_def Let_def accumulator_in_bounds_def split: if_splits)
next
  case Pause
  with assms show ?thesis by (auto simp: pause_def Let_def accumulator_in_bounds_def split: if_splits)
next
  case (Resume a)
  with assms show ?thesis by (auto simp: resume_def Let_def accumulator_in_bounds_def split: if_splits)
next
  case (Frame delta now h)
  with assms obtain c where G: "gameLoop e g (lastFrameTime e + delta) now h = (e', g', c)"
    by (auto split: prod.splits)
  from Frame assms have "lastFrameTime e \<le> lastFrameTime e + delta" by simp
  from gameLoop_bounds[OF G assms(2,3,4) this] gameLoop_fields[OF G] show ?thesis by simp
qed

lemma run_engine_bounds:
  "0 < updateTime e \<Longrightarrow> 0 \<le> maxFrameSkip e \<Longrightarrow> accumulator_in_bounds e \<Longrightarrow>
   list_all frame_delta_nonneg evs \<Longrightarrow>
   accumulator_in_bounds (fst (run_engine (e, g) evs)) \<and>
   updateTime (fst (run_engine (e, g) evs)) = updateTime e \<and>
   maxFrameSkip (fst (run_engine (e, g) evs)) = maxFrameSkip e"
proof (induction evs arbitrary: e g)
  case Nil
  then show ?case by (simp add: run_engine_def)
next
  case (Cons ev evs)
  obtain e1 g1 where S: "sched_step (e, g) ev = (e1, g1)" by (cases "sched_step (e, g) ev") auto
  from Cons.prems have "frame_delta_nonneg ev" "list_all frame_delta_nonneg evs" by simp_all
  from sched_step_bounds[OF S Cons.prems(1,2,3) this(1)] Cons.IH[of e1 g1] this(2) Cons.prems(1,2)
  have "accumulator_in_bounds (fst (run_engine (e1, g1) evs)) \<and>
   updateTime (fst (run_engine (e1, g1) evs)) = updateTime e \<and>
   maxFrameSkip (fst (run_engine (e1, g1) evs)) = maxFrameSkip e" by simp
  with S show ?case by (simp add: run_engine_def)
qed


text \<open>
  Claim C1. An engine as the constructor builds it, with a positive update rate and a
  positive frame-skip limit and with any callbacks, goes through any sequence of
  lifecycle calls and frame callbacks whose frame deltas are not negative. After each
  of them (after the first \<open>n\<close> events, for every \<open>n\<close>) the accumulator lies between
  \<open>0\<close> and \<open>updateTime * maxFrameSkip\<close>.
\<close>

theorem accumulator_bound:
  assumes e: "e = (new_GameEngine opts)\<lparr>onUpdate := u, onRender := r, onInit := i,
                     onPause := p, onResume := rs, onStop := st\<rparr>"
    and U: "0 < targetUPS e" and M: "0 < maxFrameSkip e"
    and evs: "list_all frame_delta_nonneg evs"
  shows "0 \<le> accumulator (fst (run_engine (e, g) (take n evs))) \<and>
         accumulator (fst (run_engine (e, g) (take n evs))) \<le> updateTime e * of_int (maxFrameSkip e)"
proof -
  have ut: "updateTime e = 1000 / targetUPS e" and acc: "accumulator e = 0"
    by (simp_all add: e new_GameEngine_def Let_def)
  with U have U': "0 < updateTime e" by simp
  from M have M': "0 \<le> maxFrameSkip e" by simp
  from U' M' acc have inv: "accumulator_in_bounds e" by (simp add: accumulator_in_bounds_def)
  from evs have "list_all frame_delta_nonneg (take n evs)"
    by (auto simp: list_all_iff dest: in_set_takeD)
  from run_engine_bounds[OF U' M' inv this, of g]
  have A: "accumulator_in_bounds (fst (run_engine (e, g) (take n evs)))"
    and B: "updateTime (fst (run_engine (e, g) (take n evs))) = updateTime e"
    and C: "maxFrameSkip (fst (run_engine (e, g) (take n evs))) = maxFrameSkip e"
    by blast+
  from A show ?thesis unfolding accumulator_in_bounds_def B C .
qed

theorem accumulator_bound_witness:
  "0 < targetUPS (new_GameEngine initGame_options :: unit GameEngine) \<and>
   0 < maxFrameSkip (new_GameEngine initGame_options :: unit GameEngine) \<and>
   list_all frame_delta_nonneg [Start 0 0 0 1, Frame 100 100 2, Pause, Resume 500, Frame 7 507 3] \<and>
   0 \<le> accumulator (fst (run_engine (new_GameEngine initGame_options, ())
          (take 5 [Start 0 0 0 1, Frame 100 100 2, Pause, Resume 500, Frame 7 507 3]))) \<and>
   accumulator (fst (run_engine (new_GameEngine initGame_options, ())
          (take 5 [Start 0 0 0 1, Frame 100 100 2, Pause, Resume 500, Frame 7 507 3])))
     \<le> updateTime (new_GameEngine initGame_options :: unit GameEngine)
         * of_int (maxFrameSkip (new_GameEngine initGame_options :: unit GameEngine)) \<and>
   accumulator (fst (run_engine (new_GameEngine initGame_options, ())
          [Start 0 0 0 1, Frame 100 100 2, Pause, Resume 500, Frame 7 507 3])) = 7"
proof -
  have "accumulator (fst (run_engine (new_GameEngine initGame_options, ())
          [Start 0 0 0 1, Frame 100 100 2, Pause, Resume 500, Frame 7 507 3])) = 7"
    by (simp add: run_engine_def start_def gameLoop_def updateLoop.simps updateStats_def
        resetStats_def call_hook_def pause_def resume_def new_GameEngine_def initGame_options_def
        js_or_def js_or_null_def Let_def)
  with accumulator_bound [where e = "new_GameEngine initGame_options :: unit GameEngine"
      and opts = initGame_options and u = None and r = None and i = None and p = None
      and rs = None and st = None and g = "()" and n = 5
      and evs = "[Start 0 0 0 1, Frame 100 100 2, Pause, Resume 500, Frame 7 507 3]"]
  show ?thesis
    by (simp add: new_GameEngine_def initGame_options_def js_or_def js_or_null_def)
qed

section \<open>Rounding to double precision\<close>






section \<open>Updates and renders of one frame\<close>

lemma pre_loop_fields:
  "accumulator (pre_loop e t now h) = accumulator e + (t - lastFrameTime e)"
  "updateTime (pre_loop e t now h) = updateTime e"
  "maxFrameSkip (pre_loop e t now h) = maxFrameSkip e"
  "onUpdate (pre_loop e t now h) = onUpdate e"
  "onRender (pre_loop e t now h) = onRender e"
  by (simp_all add: pre_loop_def updateStats_def Let_def)

lemma gameLoop_unfold:
  "isRunning e \<Longrightarrow> \<not> isPaused e \<Longrightarrow>
   gameLoop e g t now h =
     (case updateLoop (pre_loop e t now h) g [] 0 of (e5, g5, calls5) \<Rightarrow>
        let e6 = (if accumulator e5 > updateTime e5 * of_int (maxFrameSkip e5)
                  then e5\<lparr>accumulator := updateTime e5 * of_int (maxFrameSkip e5)\<rparr>
                  else e5);
            alpha = accumulator e6 / updateTime e6
        in (e6\<lparr>stats := (stats e6)\<lparr>frameCount := frameCount (stats e6) + 1\<rparr>\<rparr>,
            (case onRender e6 of None \<Rightarrow> g5 | Some f \<Rightarrow> f alpha g5),
            (case onRender e6 of None \<Rightarrow> calls5 | Some f \<Rightarrow> calls5 @ [RenderCall alpha])))"
  by (simp add: gameLoop_def pre_loop_def Let_def)









lemma updateStats_rnd_exact_arithmetic:
  "updateStats_rnd (\<lambda>v. v) e deltaTime now = updateStats e deltaTime now"
  by (simp add: updateStats_rnd_def updateStats_def)

lemma updateLoop_rnd_exact_arithmetic:
  "updateLoop_rnd (\<lambda>v. v) e g calls n = updateLoop e g calls n"
proof (induction e g calls n rule: updateLoop.induct)
  case (1 e g calls n)
  show ?case
  proof (cases "accumulator e \<ge> updateTime e \<and> n < maxFrameSkip e")
    case True
    from "1.IH"[OF True] True show ?thesis
      by (subst updateLoop_rnd.simps, subst updateLoop.simps) simp
  next
    case False
    then show ?thesis
      by (subst updateLoop_rnd.simps, subst updateLoop.simps) auto
  qed
qed

lemma gameLoop_rnd_exact_arithmetic:
  "gameLoop_rnd (\<lambda>v. v) e g currentTime now handle = gameLoop e g currentTime now handle"
  by (simp add: gameLoop_rnd_def gameLoop_def updateStats_rnd_exact_arithmetic
      updateLoop_rnd_exact_arithmetic Let_def)






section \<open>The construction of the engine\<close>

text \<open>
  Claim C9, as the code has it. The constructor replaces a \<open>targetUPS\<close> of zero by 60
  before it divides: the update interval is \<open>1000 / 60\<close>, and for no options at all is
  the divisor zero.
\<close>

theorem targetUPS_zero_falls_back:
  "targetUPS (new_GameEngine (opts\<lparr>opt_targetUPS := Some 0\<rparr>)) = 60
   \<and> updateTime (new_GameEngine (opts\<lparr>opt_targetUPS := Some 0\<rparr>)) = 1000 / 60
   \<and> targetUPS (new_GameEngine opts) \<noteq> 0
   \<and> updateTime (new_GameEngine opts) = 1000 / targetUPS (new_GameEngine opts)"
  by (simp add: new_GameEngine_def js_or_def Let_def split: option.splits)

text \<open>
  With \<open>targetUPS = 0\<close> passed to the constructor the divisor of \<open>1000 / targetUPS\<close>
  is not zero, and the update interval is \<open>50 / 3\<close> milliseconds.
\<close>

theorem targetUPS_zero_counterexample:
  "targetUPS (new_GameEngine (initGame_options\<lparr>opt_targetUPS := Some 0\<rparr>) :: game_state GameEngine) \<noteq> 0
   \<and> updateTime (new_GameEngine (initGame_options\<lparr>opt_targetUPS := Some 0\<rparr>) :: game_state GameEngine)
       = 50 / 3"
  by (simp add: new_GameEngine_def js_or_def Let_def initGame_options_def)

section \<open>The physics update, field by field\<close>

lemma regularForces_sel:
  "vy (regularForces cfg k dt t) =
     vy t - regularFlightThrust cfg * dt - (if key_w k then thrusterForce cfg * dt else 0)
       + (if key_s k then thrusterForce cfg * dt else 0) + gravityPixels cfg * dt"
  "vx (regularForces cfg k dt t) =
     vx t - (if key_a k then thrusterForce cfg * dt else 0)
       + (if key_d k then thrusterForce cfg * dt else 0)"
  "x (regularForces cfg k dt t) = x t"
  "y (regularForces cfg k dt t) = y t"
  "onGround (regularForces cfg k dt t) = onGround t"
  "hoverMode (regularForces cfg k dt t) = hoverMode t"
  "landingGear (regularForces cfg k dt t) = landingGear t"
  "facingRight (regularForces cfg k dt t) =
     (if key_d k then True else if key_a k then False else facingRight t)"
  by (simp_all add: regularForces_def Let_def)

lemma hoverForces_sel:
  "vy (hoverForces cfg k dt t) =
     damped (hoverDamping cfg * dt) (vy t) - hoverThrust_used cfg * dt
       - (if key_w k then thrusterForce cfg * dt else 0)
       + (if key_s k then thrusterForce cfg * dt else 0) + gravityPixels cfg * dt"
  "vx (hoverForces cfg k dt t) =
     damped (hoverDamping cfg * dt) (vx t) - (if key_a k then thrusterForce cfg * dt else 0)
       + (if key_d k then thrusterForce cfg * dt else 0)"
  "x (hoverForces cfg k dt t) = x t"
  "y (hoverForces cfg k dt t) = y t"
  "onGround (hoverForces cfg k dt t) = onGround t"
  "hoverMode (hoverForces cfg k dt t) = hoverMode t"
  "landingGear (hoverForces cfg k dt t) = landingGear t"
  "facingRight (hoverForces cfg k dt t) =
     (if key_d k then True else if key_a k then False else facingRight t)"
  by (simp_all add: hoverForces_def damped_def Let_def)

lemma integrate_sel:
  "x (integrate dt t) = x t + vx t * dt"
  "y (integrate dt t) = y t + vy t * dt"
  "vx (integrate dt t) = vx t"
  "vy (integrate dt t) = vy t"
  "onGround (integrate dt t) = onGround t"
  "hoverMode (integrate dt t) = hoverMode t"
  "landingGear (integrate dt t) = landingGear t"
  "facingRight (integrate dt t) = facingRight t"
  by (simp_all add: integrate_def Let_def)

lemma collideHorizontal_sel:
  "x (collideHorizontal l r t) = (if x t < l then l else if x t > r then r else x t)"
  "vx (collideHorizontal l r t) = (if x t < l then 0 else if x t > r then 0 else vx t)"
  "y (collideHorizontal l r t) = y t"
  "vy (collideHorizontal l r t) = vy t"
  "onGround (collideHorizontal l r t) = onGround t"
  "hoverMode (collideHorizontal l r t) = hoverMode t"
  "landingGear (collideHorizontal l r t) = landingGear t"
  "facingRight (collideHorizontal l r t) = facingRight t"
  by (simp_all add: collideHorizontal_def)

lemma collideVertical_sel:
  "y (collideVertical tp b t) = (if y t < tp then tp else if y t \<ge> b then b else y t)"
  "vy (collideVertical tp b t) = (if y t < tp then 0 else if y t \<ge> b then 0 else vy t)"
  "x (collideVertical tp b t) = x t"
  "vx (collideVertical tp b t) = vx t"
  "onGround (collideVertical tp b t) = (\<not> y t < tp \<and> y t \<ge> b)"
  "hoverMode (collideVertical tp b t) = hoverMode t"
  "landingGear (collideVertical tp b t) = landingGear t"
  "facingRight (collideVertical tp b t) = facingRight t"
  by (simp_all add: collideVertical_def)

lemma updateGame_sel:
  "taxi (updateGame cfg dt g) =
     collideVertical topBoundary (bottomBoundary g)
       (collideHorizontal (leftBoundary g) (rightBoundary g) (integrated cfg dt g))"
  "keys (updateGame cfg dt g) = keys g"
  "innerWidth (updateGame cfg dt g) = innerWidth g"
  "innerHeight (updateGame cfg dt g) = innerHeight g"
  "taxiSprite (updateGame cfg dt g) = taxiSprite g"
  by (simp_all add: updateGame_def Let_def)

lemma updateGame_dims:
  "taxiWidth (updateGame cfg dt g) = taxiWidth g"
  "taxiHeight (updateGame cfg dt g) = taxiHeight g"
  "leftBoundary (updateGame cfg dt g) = leftBoundary g"
  "rightBoundary (updateGame cfg dt g) = rightBoundary g"
  "bottomBoundary (updateGame cfg dt g) = bottomBoundary g"
  by (simp_all add: taxiWidth_def taxiHeight_def leftBoundary_def rightBoundary_def
      bottomBoundary_def updateGame_sel)

lemma integrated_sel:
  "hoverMode (integrated cfg dt g) = hoverMode (taxi g)"
  "landingGear (integrated cfg dt g) = landingGear (taxi g)"
  "onGround (integrated cfg dt g) = onGround (taxi g)"
  "facingRight (integrated cfg dt g) =
     (if key_d (keys g) then True else if key_a (keys g) then False else facingRight (taxi g))"
  by (simp_all add: integrated_def integrate_sel hoverForces_sel regularForces_sel)

lemma same_inputs_integrated:
  assumes "same_inputs g1 g2"
  shows "x (integrated cfg dt g1) = x (integrated cfg dt g2)"
    "y (integrated cfg dt g1) = y (integrated cfg dt g2)"
    "vx (integrated cfg dt g1) = vx (integrated cfg dt g2)"
    "vy (integrated cfg dt g1) = vy (integrated cfg dt g2)"
  using assms
  by (simp_all add: same_inputs_def integrated_def integrate_sel hoverForces_sel regularForces_sel)

lemma same_inputs_step:
  assumes "same_inputs g1 g2"
  shows "same_inputs (updateGame cfg dt g1) (updateGame cfg dt g2)"
    and "kinematics (updateGame cfg dt g1) = kinematics (updateGame cfg dt g2)"
proof -
  from assms have B: "leftBoundary g1 = leftBoundary g2" "rightBoundary g1 = rightBoundary g2"
    "bottomBoundary g1 = bottomBoundary g2"
    by (simp_all add: same_inputs_def leftBoundary_def rightBoundary_def bottomBoundary_def)
  note I = same_inputs_integrated[OF assms, of cfg dt]
  have K: "kinematics (updateGame cfg dt g1) = kinematics (updateGame cfg dt g2)"
    by (simp add: kinematics_def updateGame_sel collideVertical_sel collideHorizontal_sel B I)
  then show "kinematics (updateGame cfg dt g1) = kinematics (updateGame cfg dt g2)" .
  from K assms show "same_inputs (updateGame cfg dt g1) (updateGame cfg dt g2)"
    by (simp add: same_inputs_def kinematics_def updateGame_dims updateGame_sel(2-)
        collideVertical_sel collideHorizontal_sel integrated_sel updateGame_sel(1))
qed

lemma sample_config_simps:
  "gravity sample_config = 981 / 100" "pixelsPerMeter sample_config = 100"
  "thrusterForce sample_config = 1500" "regularFlightThrust sample_config = 500"
  "hoverThrust sample_config = None" "hoverDamping sample_config = 800"
  by (simp_all add: sample_config_def new_GameEngine_def initGame_options_def js_or_def js_or_null_def)

lemma sample_game_simps:
  "taxi sample_game = \<lparr> x = 960, y = 540, vx = 0, vy = 0, onGround = False, hoverMode = False,
                facingRight = False, landingGear = False \<rparr>"
  "keys sample_game = \<lparr> key_w = False, key_s = False, key_a = False, key_d = False \<rparr>"
  "innerWidth sample_game = 1920" "innerHeight sample_game = 1080"
  "taxiWidth sample_game = 64" "taxiHeight sample_game = 32"
  "leftBoundary sample_game = 32" "rightBoundary sample_game = 1888"
  "bottomBoundary sample_game = 1048"
  by (simp_all add: sample_game_def taxiWidth_def taxiHeight_def leftBoundary_def
      rightBoundary_def bottomBoundary_def)

lemma place_simps:
  "x (taxi (place px py pvx pvy g)) = px" "y (taxi (place px py pvx pvy g)) = py"
  "vx (taxi (place px py pvx pvy g)) = pvx" "vy (taxi (place px py pvx pvy g)) = pvy"
  "hoverMode (taxi (place px py pvx pvy g)) = hoverMode (taxi g)"
  "keys (place px py pvx pvy g) = keys g"
  "innerWidth (place px py pvx pvy g) = innerWidth g"
  "innerHeight (place px py pvx pvy g) = innerHeight g"
  "taxiWidth (place px py pvx pvy g) = taxiWidth g"
  "taxiHeight (place px py pvx pvy g) = taxiHeight g"
  "leftBoundary (place px py pvx pvy g) = leftBoundary g"
  "rightBoundary (place px py pvx pvy g) = rightBoundary g"
  "bottomBoundary (place px py pvx pvy g) = bottomBoundary g"
  by (simp_all add: place_def taxiWidth_def taxiHeight_def leftBoundary_def rightBoundary_def
      bottomBoundary_def)

lemma damped_nonpos: "v \<le> 0 \<Longrightarrow> damped d v \<le> 0"
  by (simp add: damped_def)

lemma damped_zero: "damped d 0 = 0"
  by (simp add: damped_def)

lemma integrated_kin:
  "x (integrated cfg dt g) = x (taxi g) + vx (integrated cfg dt g) * dt"
  "y (integrated cfg dt g) = y (taxi g) + vy (integrated cfg dt g) * dt"
  "vx (integrated cfg dt g) =
     (if hoverMode (taxi g) then damped (hoverDamping cfg * dt) (vx (taxi g)) else vx (taxi g))
       - (if key_a (keys g) then thrusterForce cfg * dt else 0)
       + (if key_d (keys g) then thrusterForce cfg * dt else 0)"
  "vy (integrated cfg dt g) =
     (if hoverMode (taxi g)
      then damped (hoverDamping cfg * dt) (vy (taxi g)) - hoverThrust_used cfg * dt
      else vy (taxi g) - regularFlightThrust cfg * dt)
       - (if key_w (keys g) then thrusterForce cfg * dt else 0)
       + (if key_s (keys g) then thrusterForce cfg * dt else 0) + gravityPixels cfg * dt"
  by (simp_all add: integrated_def integrate_sel hoverForces_sel regularForces_sel)

lemma updateGame_kin:
  "x (taxi (updateGame cfg dt g)) =
     (if x (integrated cfg dt g) < leftBoundary g then leftBoundary g
      else if x (integrated cfg dt g) > rightBoundary g then rightBoundary g
      else x (integrated cfg dt g))"
  "vx (taxi (updateGame cfg dt g)) =
     (if x (integrated cfg dt g) < leftBoundary g then 0
      else if x (integrated cfg dt g) > rightBoundary g then 0
      else vx (integrated cfg dt g))"
  "y (taxi (updateGame cfg dt g)) =
     (if y (integrated cfg dt g) < topBoundary then topBoundary
      else if y (integrated cfg dt g) \<ge> bottomBoundary g then bottomBoundary g
      else y (integrated cfg dt g))"
  "vy (taxi (updateGame cfg dt g)) =
     (if y (integrated cfg dt g) < topBoundary then 0
      else if y (integrated cfg dt g) \<ge> bottomBoundary g then 0
      else vy (integrated cfg dt g))"
  "onGround (taxi (updateGame cfg dt g)) =
     (\<not> y (integrated cfg dt g) < topBoundary \<and> y (integrated cfg dt g) \<ge> bottomBoundary g)"
  "hoverMode (taxi (updateGame cfg dt g)) = hoverMode (taxi g)"
  "landingGear (taxi (updateGame cfg dt g)) = landingGear (taxi g)"
  "facingRight (taxi (updateGame cfg dt g)) =
     (if key_d (keys g) then True else if key_a (keys g) then False else facingRight (taxi g))"
  by (simp_all add: updateGame_sel collideVertical_sel collideHorizontal_sel integrated_sel)

lemma run_updates_length: "length (run_updates cfg deltas g) = length deltas"
  by (induction deltas arbitrary: g) simp_all

lemma idle_hover_step:
  assumes "hoverMode (taxi g)" "hoverThrust cfg = None" "vy (taxi g) = 0"
    "\<not> key_w (keys g)" "\<not> key_s (keys g)"
  shows "vy (taxi (updateGame cfg dt g)) = 0"
  using assms
  by (simp add: updateGame_kin integrated_kin hoverThrust_used_def damped_zero)

lemmas eval_updateGame = updateGame_def integrated_def integrate_def
        regularForces_def hoverForces_def collideHorizontal_def collideVertical_def Let_def
        leftBoundary_def rightBoundary_def bottomBoundary_def topBoundary_def taxiWidth_def
        taxiHeight_def gravityPixels_def hoverThrust_used_def

section \<open>Determinism of the physics update\<close>

text \<open>
  Claim C4. The trajectory \<open>(x, y, vx, vy)\<close> of a run of update calls is a function of
  the configuration, the deltas, and of what \<open>same_inputs\<close> compares: two states that agree
  there (whatever else they hold) have the same trajectory, for every list of deltas,
  a constant delta in particular.
\<close>

theorem fixed_step_determinism:
  assumes "same_inputs g1 g2"
  shows "trajectory cfg deltas g1 = trajectory cfg deltas g2"
  using assms
proof (induction deltas arbitrary: g1 g2)
  case Nil
  show ?case by (simp add: trajectory_def)
next
  case (Cons dt deltas)
  from same_inputs_step[OF Cons.prems, of cfg dt] Cons.IH[of "updateGame cfg dt g1" "updateGame cfg dt g2"]
  show ?case by (simp add: trajectory_def)
qed

theorem fixed_step_determinism_witness:
  "same_inputs sample_game
     (sample_game\<lparr>taxi := (taxi sample_game)\<lparr>onGround := True, facingRight := True, landingGear := True\<rparr>\<rparr>)
   \<and> trajectory sample_config [1 / 60, 1 / 60] sample_game =
     trajectory sample_config [1 / 60, 1 / 60]
       (sample_game\<lparr>taxi := (taxi sample_game)\<lparr>onGround := True, facingRight := True, landingGear := True\<rparr>\<rparr>)"
  using fixed_step_determinism [of sample_game
      "sample_game\<lparr>taxi := (taxi sample_game)\<lparr>onGround := True, facingRight := True, landingGear := True\<rparr>\<rparr>"
      sample_config "[1 / 60, 1 / 60]"]
  by (simp add: same_inputs_def sample_game_simps taxiWidth_def taxiHeight_def)

section \<open>The screen boundaries\<close>

text \<open>
  Claim C3, as the code has it. On a screen at least as large as the sprite, an update
  whose integrated position lies beyond a boundary ends exactly on that boundary with
  the velocity component of that axis zero, and every update ends within the four
  boundaries. A taxi at \<open>x = leftBoundary - 5\<close> with \<open>vx = - 50\<close> ends an update of
  positive \<open>deltaTime\<close> at \<open>x = leftBoundary\<close> with \<open>vx = 0\<close> when the key \<open>d\<close> is not held
  and the thruster force is not negative.
\<close>

theorem boundary_inelasticity:
  assumes fit: "taxiWidth g \<le> innerWidth g" "taxiHeight g \<le> innerHeight g"
    and g': "g' = updateGame cfg dt g"
  shows "(x (integrated cfg dt g) < leftBoundary g \<longrightarrow>
            x (taxi g') = leftBoundary g \<and> vx (taxi g') = 0)
       \<and> (x (integrated cfg dt g) > rightBoundary g \<longrightarrow>
            x (taxi g') = rightBoundary g \<and> vx (taxi g') = 0)
       \<and> (y (integrated cfg dt g) < topBoundary \<longrightarrow>
            y (taxi g') = topBoundary \<and> vy (taxi g') = 0)
       \<and> (y (integrated cfg dt g) > bottomBoundary g \<longrightarrow>
            y (taxi g') = bottomBoundary g \<and> vy (taxi g') = 0)
       \<and> leftBoundary g \<le> x (taxi g') \<and> x (taxi g') \<le> rightBoundary g
       \<and> topBoundary \<le> y (taxi g') \<and> y (taxi g') \<le> bottomBoundary g
       \<and> (x (taxi g) = leftBoundary g - 5 \<and> vx (taxi g) = - 50 \<and> 0 < dt \<and>
            \<not> key_d (keys g) \<and> 0 \<le> thrusterForce cfg \<longrightarrow>
            x (taxi g') = leftBoundary g \<and> vx (taxi g') = 0)"
proof -
  from fit have lr: "leftBoundary g \<le> rightBoundary g" and tb: "topBoundary \<le> bottomBoundary g"
    by (simp_all add: leftBoundary_def rightBoundary_def topBoundary_def bottomBoundary_def)
  have scen: "x (integrated cfg dt g) < leftBoundary g"
    if "x (taxi g) = leftBoundary g - 5" "vx (taxi g) = - 50" "0 < dt"
       "\<not> key_d (keys g)" "0 \<le> thrusterForce cfg"
  proof -
    have "damped (hoverDamping cfg * dt) (- 50) \<le> 0" by (rule damped_nonpos) simp
    moreover have "0 \<le> thrusterForce cfg * dt" using that by simp
    ultimately have "vx (integrated cfg dt g) \<le> 0"
      unfolding integrated_kin(3) that(2) using that(4)
      by (cases "hoverMode (taxi g)"; cases "key_a (keys g)"; simp only: if_True if_False; linarith)
    then have "vx (integrated cfg dt g) * dt \<le> 0" using that(3) by (simp add: mult_le_0_iff)
    then show ?thesis using that(1) by (simp add: integrated_kin(1))
  qed
  show ?thesis
    unfolding g' using lr tb scen by (auto simp: updateGame_kin)
qed

theorem boundary_inelasticity_witness:
  "taxiWidth sample_game \<le> innerWidth sample_game \<and> taxiHeight sample_game \<le> innerHeight sample_game
   \<and> x (integrated sample_config (1 / 60) (place 27 1 (- 50) (- 600) sample_game)) < leftBoundary sample_game
   \<and> y (integrated sample_config (1 / 60) (place 27 1 (- 50) (- 600) sample_game)) < topBoundary
   \<and> kinematics (updateGame sample_config (1 / 60) (place 27 1 (- 50) (- 600) sample_game)) = (32, 0, 0, 0)
   \<and> x (integrated sample_config (1 / 60) (place 1887 1047 600 600 sample_game)) > rightBoundary sample_game
   \<and> y (integrated sample_config (1 / 60) (place 1887 1047 600 600 sample_game)) > bottomBoundary sample_game
   \<and> kinematics (updateGame sample_config (1 / 60) (place 1887 1047 600 600 sample_game)) = (1888, 1048, 0, 0)"
  using boundary_inelasticity [of "place 27 1 (- 50) (- 600) sample_game"
      "updateGame sample_config (1 / 60) (place 27 1 (- 50) (- 600) sample_game)" sample_config "1 / 60"]
    boundary_inelasticity [of "place 1887 1047 600 600 sample_game"
      "updateGame sample_config (1 / 60) (place 1887 1047 600 600 sample_game)" sample_config "1 / 60"]
  by (simp add: kinematics_def place_simps sample_game_simps sample_config_simps integrated_kin
      gravityPixels_def topBoundary_def)

text \<open>
  With \<open>d\<close> held and \<open>deltaTime = 1 / 10\<close> the right thruster outweighs the velocity of
  \<open>- 50\<close>: the taxi that starts five pixels left of the left boundary ends inside the
  screen, moving right at 100 pixels per second.
\<close>

theorem boundary_scenario_counterexample:
  "x (taxi (place 27 540 (- 50) 0 (sample_game\<lparr>keys := (keys sample_game)\<lparr>key_d := True\<rparr>\<rparr>)))
     = leftBoundary (place 27 540 (- 50) 0 (sample_game\<lparr>keys := (keys sample_game)\<lparr>key_d := True\<rparr>\<rparr>)) - 5
   \<and> vx (taxi (place 27 540 (- 50) 0 (sample_game\<lparr>keys := (keys sample_game)\<lparr>key_d := True\<rparr>\<rparr>))) = - 50
   \<and> (0 :: real) < 1 / 10
   \<and> x (taxi (updateGame sample_config (1 / 10)
          (place 27 540 (- 50) 0 (sample_game\<lparr>keys := (keys sample_game)\<lparr>key_d := True\<rparr>\<rparr>))))
       \<noteq> leftBoundary (place 27 540 (- 50) 0 (sample_game\<lparr>keys := (keys sample_game)\<lparr>key_d := True\<rparr>\<rparr>))
   \<and> vx (taxi (updateGame sample_config (1 / 10)
          (place 27 540 (- 50) 0 (sample_game\<lparr>keys := (keys sample_game)\<lparr>key_d := True\<rparr>\<rparr>)))) = 100"
  by (simp add: place_def sample_game_def sample_config_simps updateGame_def integrated_def
      integrate_def regularForces_def collideHorizontal_def collideVertical_def Let_def
      leftBoundary_def rightBoundary_def bottomBoundary_def topBoundary_def taxiWidth_def
      taxiHeight_def gravityPixels_def)

section \<open>Hover mode at rest\<close>

text \<open>
  Claim C5. In hover mode, with the hover thrust derived from the gravity
  (\<open>hoverThrust\<close> is \<open>null\<close>), a taxi with \<open>vy = 0\<close> and neither \<open>w\<close> nor \<open>s\<close> held has \<open>vy = 0\<close>
  after every update of a run, whatever the deltas and whether or not a boundary is
  touched.
\<close>

theorem hover_steady_state:
  assumes "hoverMode (taxi g)" and "hoverThrust cfg = None" and "vy (taxi g) = 0"
    and "\<not> key_w (keys g)" and "\<not> key_s (keys g)"
  shows "list_all (\<lambda>g'. vy (taxi g') = 0) (run_updates cfg deltas g)"
  using assms
proof (induction deltas arbitrary: g)
  case Nil
  show ?case by simp
next
  case (Cons dt deltas)
  have "vy (taxi (updateGame cfg dt g)) = 0"
    using Cons.prems by (rule idle_hover_step)
  moreover have "list_all (\<lambda>g'. vy (taxi g') = 0) (run_updates cfg deltas (updateGame cfg dt g))"
    using Cons.prems \<open>vy (taxi (updateGame cfg dt g)) = 0\<close>
    by (intro Cons.IH) (simp_all add: updateGame_kin updateGame_sel(2-))
  ultimately show ?case by simp
qed

theorem hover_steady_state_witness:
  "hoverMode (taxi (sample_game\<lparr>taxi := (taxi sample_game)\<lparr>hoverMode := True\<rparr>\<rparr>))
   \<and> hoverThrust sample_config = None
   \<and> vy (taxi (sample_game\<lparr>taxi := (taxi sample_game)\<lparr>hoverMode := True\<rparr>\<rparr>)) = 0
   \<and> list_all (\<lambda>g'. vy (taxi g') = 0)
        (run_updates sample_config [1 / 60, 1 / 60, 1 / 2]
           (sample_game\<lparr>taxi := (taxi sample_game)\<lparr>hoverMode := True\<rparr>\<rparr>))"
  using hover_steady_state [of "sample_game\<lparr>taxi := (taxi sample_game)\<lparr>hoverMode := True\<rparr>\<rparr>" sample_config "[1 / 60, 1 / 60, 1 / 2]"]
  by (simp add: sample_game_simps sample_config_simps)

section \<open>Regular mode without keys\<close>

lemma regular_idle_step:
  assumes "\<not> hoverMode (taxi g)" "\<not> key_w (keys g)" "\<not> key_s (keys g)"
    "\<not> vertical_contact cfg dt g"
  shows "vy (taxi (updateGame cfg dt g)) =
           vy (taxi g) + (gravityPixels cfg - regularFlightThrust cfg) * dt"
    and "y (taxi (updateGame cfg dt g)) = y (taxi g) + vy (taxi (updateGame cfg dt g)) * dt"
  using assms
  by (simp_all add: vertical_contact_def updateGame_kin integrated_kin algebra_simps)

lemma regular_idle_run:
  assumes "\<not> hoverMode (taxi g)" "\<not> key_w (keys g)" "\<not> key_s (keys g)"
    "no_vertical_contact cfg deltas g"
  shows "vy (taxi (last (g # run_updates cfg deltas g))) =
           vy (taxi g) + (gravityPixels cfg - regularFlightThrust cfg) * sum_list deltas"
  using assms
proof (induction deltas arbitrary: g)
  case Nil
  show ?case by simp
next
  case (Cons dt deltas)
  let ?g1 = "updateGame cfg dt g"
  from Cons.prems have nc: "\<not> vertical_contact cfg dt g" "no_vertical_contact cfg deltas ?g1"
    by simp_all
  have "vy (taxi (last (?g1 # run_updates cfg deltas ?g1))) =
           vy (taxi ?g1) + (gravityPixels cfg - regularFlightThrust cfg) * sum_list deltas"
    using Cons.prems(1-3) nc(2) by (intro Cons.IH) (simp_all add: updateGame_kin updateGame_sel(2-))
  with regular_idle_step(1)[OF Cons.prems(1-3) nc(1)] show ?case
    by (simp add: algebra_simps)
qed

lemma regular_idle_y_increasing:
  assumes "\<not> hoverMode (taxi g)" "\<not> key_w (keys g)" "\<not> key_s (keys g)"
    "no_vertical_contact cfg deltas g"
    "0 < gravityPixels cfg - regularFlightThrust cfg" "0 \<le> vy (taxi g)"
    "list_all (\<lambda>dt. 0 < dt) deltas"
  shows "y_increasing (y (taxi g)) (run_updates cfg deltas g)"
  using assms
proof (induction deltas arbitrary: g)
  case Nil
  show ?case by simp
next
  case (Cons dt deltas)
  let ?g1 = "updateGame cfg dt g"
  from Cons.prems have nc: "\<not> vertical_contact cfg dt g" "no_vertical_contact cfg deltas ?g1"
    and dt: "0 < dt" "list_all (\<lambda>dt. 0 < dt) deltas"
    by simp_all
  note S = regular_idle_step[OF Cons.prems(1-3) nc(1)]
  have "0 < (gravityPixels cfg - regularFlightThrust cfg) * dt"
    using Cons.prems(5) dt(1) by simp
  with S(1) Cons.prems(6) have v1: "0 < vy (taxi ?g1)" by linarith
  then have "0 < vy (taxi ?g1) * dt" using dt(1) by simp
  with S(2) have up: "y (taxi g) < y (taxi ?g1)" by linarith
  have "y_increasing (y (taxi ?g1)) (run_updates cfg deltas ?g1)"
    using Cons.prems(1-3,5) nc(2) v1 dt(2)
    by (intro Cons.IH) (simp_all add: updateGame_kin updateGame_sel(2-))
  with up show ?case by simp
qed

text \<open>
  Claim C6. In regular mode with neither \<open>w\<close> nor \<open>s\<close> held, an update that does not touch
  the upper or lower boundary changes \<open>vy\<close> by
  \<open>(gravity * pixelsPerMeter - regularFlightThrust) * deltaTime\<close>. With the gravity 9.81,
  100 pixels per meter and a regular flight thrust of 500, a taxi at rest that is
  updated 60 times with \<open>deltaTime = 1 / 60\<close> without touching those boundaries ends with
  \<open>vy = 481\<close> (in exact arithmetic), and its \<open>y\<close> increases strictly at every update.
\<close>

theorem regular_idle_descent:
  assumes "\<not> hoverMode (taxi g)" and "\<not> key_w (keys g)" and "\<not> key_s (keys g)"
  shows "(\<not> vertical_contact cfg dt g \<longrightarrow>
            vy (taxi (updateGame cfg dt g)) =
              vy (taxi g) + (gravity cfg * pixelsPerMeter cfg - regularFlightThrust cfg) * dt)
       \<and> (gravity cfg = 9.81 \<and> pixelsPerMeter cfg = 100 \<and> regularFlightThrust cfg = 500 \<and>
            vx (taxi g) = 0 \<and> vy (taxi g) = 0 \<and>
            no_vertical_contact cfg (replicate 60 (1 / 60)) g \<longrightarrow>
            vy (taxi (last (run_updates cfg (replicate 60 (1 / 60)) g))) = 481 \<and>
            y_increasing (y (taxi g)) (run_updates cfg (replicate 60 (1 / 60)) g))"
proof -
  have one: "vy (taxi (updateGame cfg dt g)) =
              vy (taxi g) + (gravity cfg * pixelsPerMeter cfg - regularFlightThrust cfg) * dt"
    if "\<not> vertical_contact cfg dt g"
    using regular_idle_step(1)[OF assms that] by (simp add: gravityPixels_def)
  have run: "vy (taxi (last (run_updates cfg (replicate 60 (1 / 60)) g))) = 481 \<and>
            y_increasing (y (taxi g)) (run_updates cfg (replicate 60 (1 / 60)) g)"
    if c: "gravity cfg = 9.81" "pixelsPerMeter cfg = 100" "regularFlightThrust cfg = 500"
      and v: "vy (taxi g) = 0"
      and nc: "no_vertical_contact cfg (replicate 60 (1 / 60)) g"
  proof -
    have a: "gravityPixels cfg - regularFlightThrust cfg = 481"
      using c by (simp add: gravityPixels_def)
    have ne: "run_updates cfg (replicate 60 (1 / 60)) g \<noteq> []"
      using run_updates_length[of cfg "replicate 60 (1 / 60)" g] by auto
    have "vy (taxi (last (g # run_updates cfg (replicate 60 (1 / 60)) g))) =
            vy (taxi g) + (gravityPixels cfg - regularFlightThrust cfg) * sum_list (replicate 60 (1 / 60))"
      using assms nc by (rule regular_idle_run)
    then have "vy (taxi (last (run_updates cfg (replicate 60 (1 / 60)) g))) = 481"
      using ne v a by (simp add: sum_list_replicate)
    moreover have "y_increasing (y (taxi g)) (run_updates cfg (replicate 60 (1 / 60)) g)"
      using assms nc a v by (intro regular_idle_y_increasing) (simp_all add: list_all_iff)
    ultimately show ?thesis by simp
  qed
  from one run show ?thesis by blast
qed

theorem regular_idle_descent_witness:
  "\<not> hoverMode (taxi sample_game) \<and> \<not> key_w (keys sample_game) \<and> \<not> key_s (keys sample_game)
   \<and> \<not> vertical_contact sample_config (1 / 60) sample_game
   \<and> vy (taxi (updateGame sample_config (1 / 60) sample_game)) = 481 / 60
   \<and> no_vertical_contact sample_config (replicate 60 (1 / 60)) sample_game
   \<and> vy (taxi (last (run_updates sample_config (replicate 60 (1 / 60)) sample_game))) = 481
   \<and> y_increasing (y (taxi sample_game)) (run_updates sample_config (replicate 60 (1 / 60)) sample_game)"
proof -
  have nc: "no_vertical_contact sample_config (replicate 60 (1 / 60)) sample_game"
    by (simp add: numeral_eq_Suc vertical_contact_def updateGame_def integrated_def integrate_def
        regularForces_def collideHorizontal_def collideVertical_def Let_def
        leftBoundary_def rightBoundary_def bottomBoundary_def topBoundary_def taxiWidth_def
        taxiHeight_def gravityPixels_def sample_game_def sample_config_simps)
  have c1: "\<not> vertical_contact sample_config (1 / 60) sample_game"
    by (simp add: vertical_contact_def integrated_kin
        sample_game_simps sample_config_simps gravityPixels_def topBoundary_def)
  from nc c1 regular_idle_descent [of sample_game sample_config "1 / 60"]
  show ?thesis
    by (simp add: sample_game_simps sample_config_simps)
qed

section \<open>The flag onGround\<close>

lemma onGround_step:
  assumes "bottomBoundary g \<noteq> topBoundary"
  shows "onGround (taxi (updateGame cfg dt g)) = (y (taxi (updateGame cfg dt g)) = bottomBoundary g)"
  using assms by (auto simp: updateGame_kin)

text \<open>
  Claim C7, as the code has it. When the lower boundary is not the upper boundary
  (the window is not exactly as high as the sprite), \<open>onGround\<close> holds after an update
  if and only if \<open>y\<close> is the lower boundary, after every update of a run. An update
  clamped at the upper boundary leaves \<open>onGround\<close> false, and so does one that ends
  strictly between the two boundaries.
\<close>

theorem onGround_characterization:
  assumes "bottomBoundary g \<noteq> topBoundary"
  shows "list_all (\<lambda>g'. onGround (taxi g') = (y (taxi g') = bottomBoundary g')) (run_updates cfg deltas g)
       \<and> (y (integrated cfg dt g) < topBoundary \<longrightarrow> \<not> onGround (taxi (updateGame cfg dt g)))
       \<and> (topBoundary < y (taxi (updateGame cfg dt g)) \<and>
            y (taxi (updateGame cfg dt g)) < bottomBoundary g \<longrightarrow>
            \<not> onGround (taxi (updateGame cfg dt g)))"
proof -
  have "list_all (\<lambda>g'. onGround (taxi g') = (y (taxi g') = bottomBoundary g')) (run_updates cfg deltas g)"
    using assms
  proof (induction deltas arbitrary: g)
    case Nil
    show ?case by simp
  next
    case (Cons d deltas)
    from Cons.prems have "bottomBoundary (updateGame cfg d g) \<noteq> topBoundary"
      by (simp add: updateGame_dims)
    from Cons.IH[OF this] onGround_step[OF Cons.prems, of cfg d] show ?case
      by (simp add: updateGame_dims)
  qed
  moreover have "y (integrated cfg dt g) < topBoundary \<longrightarrow> \<not> onGround (taxi (updateGame cfg dt g))"
    by (simp add: updateGame_kin)
  moreover have "topBoundary < y (taxi (updateGame cfg dt g)) \<and>
            y (taxi (updateGame cfg dt g)) < bottomBoundary g \<longrightarrow>
            \<not> onGround (taxi (updateGame cfg dt g))"
    using onGround_step[OF assms, of cfg dt] by auto
  ultimately show ?thesis by blast
qed

theorem onGround_characterization_witness:
  "bottomBoundary sample_game \<noteq> topBoundary
   \<and> list_all (\<lambda>g'. onGround (taxi g') = (y (taxi g') = bottomBoundary g'))
        (run_updates sample_config [1 / 60, 1 / 60] (place 960 1047 0 600 sample_game))
   \<and> map (\<lambda>g'. (y (taxi g'), onGround (taxi g')))
        (run_updates sample_config [1 / 60, 1 / 60] (place 960 1047 0 600 sample_game))
       = [(1048, True), (1048, True)]
   \<and> y (integrated sample_config (1 / 60) (place 960 1 0 (- 600) sample_game)) < topBoundary
   \<and> \<not> onGround (taxi (updateGame sample_config (1 / 60) (place 960 1 0 (- 600) sample_game)))
   \<and> topBoundary < y (taxi (updateGame sample_config (1 / 60) sample_game))
   \<and> y (taxi (updateGame sample_config (1 / 60) sample_game)) < bottomBoundary sample_game
   \<and> \<not> onGround (taxi (updateGame sample_config (1 / 60) sample_game))"
  using onGround_characterization [of "place 960 1047 0 600 sample_game" sample_config
      "[1 / 60, 1 / 60]" "1 / 60"]
    onGround_characterization [of "place 960 1 0 (- 600) sample_game" sample_config "[]" "1 / 60"]
    onGround_characterization [of sample_game sample_config "[]" "1 / 60"]
  by (simp add: eval_updateGame place_def sample_game_def sample_config_simps)

text \<open>
  In a window exactly as high as the sprite the lower boundary is 0, the upper
  boundary. A taxi pushed against the top is clamped there by the first branch:
  \<open>y\<close> is the lower boundary and \<open>onGround\<close> is false.
\<close>

theorem onGround_counterexample:
  "y (taxi (updateGame sample_config (1 / 60) flat_game))
     = bottomBoundary (updateGame sample_config (1 / 60) flat_game)
   \<and> \<not> onGround (taxi (updateGame sample_config (1 / 60) flat_game))"
  by (simp add: eval_updateGame flat_game_def sample_game_def sample_config_simps)

section \<open>What the physics update leaves alone\<close>

text \<open>
  Claim C10. \<open>updateGame\<close> changes nothing but \<open>x\<close>, \<open>y\<close>, \<open>vx\<close>, \<open>vy\<close>, \<open>onGround\<close> and
  \<open>facingRight\<close> of the taxi: \<open>hoverMode\<close> and \<open>landingGear\<close>, the keys, the window and the
  sprite are as before, and \<open>facingRight\<close> too when neither \<open>a\<close> nor \<open>d\<close> is held.
\<close>

theorem updateGame_frame:
  "hoverMode (taxi (updateGame cfg dt g)) = hoverMode (taxi g)
   \<and> landingGear (taxi (updateGame cfg dt g)) = landingGear (taxi g)
   \<and> keys (updateGame cfg dt g) = keys g
   \<and> innerWidth (updateGame cfg dt g) = innerWidth g
   \<and> innerHeight (updateGame cfg dt g) = innerHeight g
   \<and> taxiSprite (updateGame cfg dt g) = taxiSprite g
   \<and> updateGame cfg dt g =
       g\<lparr>taxi := (taxi g)\<lparr>x := x (taxi (updateGame cfg dt g)),
                            y := y (taxi (updateGame cfg dt g)),
                            vx := vx (taxi (updateGame cfg dt g)),
                            vy := vy (taxi (updateGame cfg dt g)),
                            onGround := onGround (taxi (updateGame cfg dt g)),
                            facingRight := facingRight (taxi (updateGame cfg dt g))\<rparr>\<rparr>
   \<and> (\<not> key_a (keys g) \<and> \<not> key_d (keys g) \<longrightarrow>
        facingRight (taxi (updateGame cfg dt g)) = facingRight (taxi g))"
proof -
  have "taxi (updateGame cfg dt g) =
       (taxi g)\<lparr>x := x (taxi (updateGame cfg dt g)),
                            y := y (taxi (updateGame cfg dt g)),
                            vx := vx (taxi (updateGame cfg dt g)),
                            vy := vy (taxi (updateGame cfg dt g)),
                            onGround := onGround (taxi (updateGame cfg dt g)),
                            facingRight := facingRight (taxi (updateGame cfg dt g))\<rparr>"
    by (rule taxi.equality) (simp_all add: updateGame_kin(6,7) updateGame_sel(1)
        collideVertical_def collideHorizontal_def integrated_def integrate_def hoverForces_def regularForces_def Let_def)
  then have "updateGame cfg dt g =
       g\<lparr>taxi := (taxi g)\<lparr>x := x (taxi (updateGame cfg dt g)),
                            y := y (taxi (updateGame cfg dt g)),
                            vx := vx (taxi (updateGame cfg dt g)),
                            vy := vy (taxi (updateGame cfg dt g)),
                            onGround := onGround (taxi (updateGame cfg dt g)),
                            facingRight := facingRight (taxi (updateGame cfg dt g))\<rparr>\<rparr>"
    by (intro game_state.equality) (simp_all add: updateGame_sel(2-) updateGame_def)
  then show ?thesis
    by (simp add: updateGame_kin(6-) updateGame_sel(2-))
qed

theorem updateGame_frame_witness:
  "\<not> key_a (keys sample_game) \<and> \<not> key_d (keys sample_game)
   \<and> facingRight (taxi (updateGame sample_config (1 / 60) sample_game)) = facingRight (taxi sample_game)"
  using updateGame_frame [of sample_config "1 / 60" sample_game]
  by (simp add: sample_game_simps)

section \<open>The hover toggle\<close>

lemma updateLoop_callbacks:
  "updateLoop e g calls n = (e', g', calls') \<Longrightarrow>
     onInit e' = onInit e \<and> onPause e' = onPause e \<and> onResume e' = onResume e \<and> onStop e' = onStop e"
proof (induction e g calls n rule: updateLoop.induct)
  case (1 e g calls n)
  show ?case
  proof (cases "accumulator e \<ge> updateTime e \<and> n < maxFrameSkip e")
    case True
    with "1.prems" have
      "updateLoop
             (e\<lparr>accumulator := accumulator e - updateTime e,
                stats := (stats e)\<lparr>updateCount := updateCount (stats e) + 1\<rparr>\<rparr>)
             (case onUpdate e of None \<Rightarrow> g | Some f \<Rightarrow> f (updateTime e / 1000) g)
             (case onUpdate e of None \<Rightarrow> calls | Some f \<Rightarrow> calls @ [UpdateCall (updateTime e / 1000)])
             (n + 1) = (e', g', calls')"
      by (subst (asm) updateLoop.simps) simp
    from "1.IH"[OF True this] show ?thesis by simp
  next
    case False
    with "1.prems" show ?thesis by (subst (asm) updateLoop.simps) auto
  qed
qed

lemma updateLoop_hover:
  "updateLoop e g calls n = (e', g', calls') \<Longrightarrow> onUpdate e = Some (updateGame cfg) \<Longrightarrow>
   hoverMode (taxi g') = hoverMode (taxi g)"
proof (induction e g calls n rule: updateLoop.induct)
  case (1 e g calls n)
  show ?case
  proof (cases "accumulator e \<ge> updateTime e \<and> n < maxFrameSkip e")
    case True
    let ?e1 = "e\<lparr>accumulator := accumulator e - updateTime e,
                stats := (stats e)\<lparr>updateCount := updateCount (stats e) + 1\<rparr>\<rparr>"
    from True "1.prems" have L: "updateLoop ?e1
         (case onUpdate e of None \<Rightarrow> g | Some f \<Rightarrow> f (updateTime e / 1000) g)
         (case onUpdate e of None \<Rightarrow> calls | Some f \<Rightarrow> calls @ [UpdateCall (updateTime e / 1000)])
         (n + 1) = (e', g', calls')"
      by (subst (asm) updateLoop.simps) simp
    have "onUpdate ?e1 = Some (updateGame cfg)" using "1.prems"(2) by simp
    from "1.IH"[OF True L this] "1.prems"(2) show ?thesis
      by (simp add: updateGame_kin)
  next
    case False
    with "1.prems" show ?thesis by (subst (asm) updateLoop.simps) auto
  qed
qed

lemma renderGame_taxi: "taxi (renderGame alpha g) = taxi g"
  by (simp add: renderGame_def Let_def split: option.splits)

lemma gameLoop_idle:
  assumes "\<not> (isRunning e \<and> \<not> isPaused e)"
  shows "gameLoop e g t now h = (if isRunning e then e\<lparr>frameId := Some h\<rparr> else e, g, [])"
proof (cases "isRunning e")
  case True
  with assms have "isPaused e" by simp
  with True show ?thesis by (simp add: gameLoop_def)
next
  case False
  then show ?thesis by (simp add: gameLoop_def)
qed

lemma gameLoop_world:
  assumes G: "gameLoop e g t now h = (e', g', calls')"
    and U: "onUpdate e = Some (updateGame cfg)" and R: "onRender e = Some renderGame"
  shows "hoverMode (taxi g') = hoverMode (taxi g)"
    and "onInit e' = onInit e \<and> onUpdate e' = onUpdate e \<and> onRender e' = onRender e \<and>
         onPause e' = onPause e \<and> onResume e' = onResume e \<and> onStop e' = onStop e \<and>
         config e' = config e"
proof -
  have "hoverMode (taxi g') = hoverMode (taxi g) \<and>
        (onInit e' = onInit e \<and> onUpdate e' = onUpdate e \<and> onRender e' = onRender e \<and>
         onPause e' = onPause e \<and> onResume e' = onResume e \<and> onStop e' = onStop e \<and>
         config e' = config e)"
  proof (cases "isRunning e \<and> \<not> isPaused e")
    case False
    from G show ?thesis unfolding gameLoop_idle[OF False] by (auto split: if_splits)
  next
    case True
    obtain e5 g5 calls5 where L: "updateLoop (pre_loop e t now h) g [] 0 = (e5, g5, calls5)"
      by (cases "updateLoop (pre_loop e t now h) g [] 0") auto
    have P: "onInit (pre_loop e t now h) = onInit e" "onPause (pre_loop e t now h) = onPause e"
      "onResume (pre_loop e t now h) = onResume e" "onStop (pre_loop e t now h) = onStop e"
      "config (pre_loop e t now h) = config e"
      by (simp_all add: pre_loop_def updateStats_def Let_def)
    from updateLoop_hover[OF L, of cfg] U have H: "hoverMode (taxi g5) = hoverMode (taxi g)"
      by (simp add: pre_loop_fields)
    from updateLoop_fields[OF L] updateLoop_callbacks[OF L] R
    have F: "onRender e5 = Some renderGame" "onUpdate e5 = onUpdate e" "onInit e5 = onInit e"
      "onPause e5 = onPause e" "onResume e5 = onResume e" "onStop e5 = onStop e" "config e5 = config e"
      by (simp_all add: pre_loop_fields P)
    from True have GU: "gameLoop e g t now h =
      (case updateLoop (pre_loop e t now h) g [] 0 of (e5, g5, calls5) \<Rightarrow>
        let e6 = (if accumulator e5 > updateTime e5 * of_int (maxFrameSkip e5)
                  then e5\<lparr>accumulator := updateTime e5 * of_int (maxFrameSkip e5)\<rparr>
                  else e5);
            alpha = accumulator e6 / updateTime e6
        in (e6\<lparr>stats := (stats e6)\<lparr>frameCount := frameCount (stats e6) + 1\<rparr>\<rparr>,
            (case onRender e6 of None \<Rightarrow> g5 | Some f \<Rightarrow> f alpha g5),
            (case onRender e6 of None \<Rightarrow> calls5 | Some f \<Rightarrow> calls5 @ [RenderCall alpha])))"
      by (intro gameLoop_unfold) simp_all
    show ?thesis
    proof (cases "accumulator e5 > updateTime e5 * of_int (maxFrameSkip e5)")
      case True
      with G show ?thesis unfolding GU L using F H R by (auto simp: Let_def renderGame_taxi)
    next
      case False
      with G show ?thesis unfolding GU L using F H R by (auto simp: Let_def renderGame_taxi)
    qed
  qed
  then show "hoverMode (taxi g') = hoverMode (taxi g)"
    and "onInit e' = onInit e \<and> onUpdate e' = onUpdate e \<and> onRender e' = onRender e \<and>
         onPause e' = onPause e \<and> onResume e' = onResume e \<and> onStop e' = onStop e \<and>
         config e' = config e" by blast+
qed

lemma pause_installed:
  "onPause e = None \<Longrightarrow> pause e g = (if \<not> isRunning e \<or> isPaused e then e else e\<lparr>isPaused := True\<rparr>, g)"
  by (simp add: pause_def call_hook_def Let_def)

lemma resume_installed:
  "onResume e = None \<Longrightarrow> resume e g now =
     (if \<not> isRunning e \<or> \<not> isPaused e then e
      else e\<lparr>isPaused := False, lastFrameTime := now, lastUpdateTime := now\<rparr>, g)"
  by (simp add: resume_def call_hook_def Let_def)

lemma hover_key_not_p: "key = ''h'' \<or> key = ''H'' \<Longrightarrow> key \<noteq> ''p''"
  by auto

lemma keydown_hover_toggle:
  assumes "callbacks_installed w"
  shows "hover (keydown k now w) =
     (if hover_keydown (KeyDown k rep now) \<and> screenActive w \<and> isRunning (gameEngine w) \<and>
         \<not> isPaused (gameEngine w)
      then \<not> hover w else hover w)"
    and "callbacks_installed (keydown k now w)"
proof -
  from assms have N: "onPause (gameEngine w) = None" "onResume (gameEngine w) = None"
    by (simp_all add: callbacks_installed_def)
  define key where "key = toLowerCase k"
  define w1 where "w1 = keydown_pause key now w"
  define w2 where "w2 = keydown_hover key w1"
  define w3 where "w3 = keydown_gear k w2"
  define w4 where "w4 = keydown_thrusters key k w3"
  have K: "keydown k now w = (if \<not> screenActive w then w else w4)"
    by (simp add: keydown_def Let_def w4_def w3_def w2_def w1_def key_def)
  have h1: "hover w1 = hover w" and c1: "callbacks_installed w1"
    and s1: "\<not> key = ''p'' \<Longrightarrow> w1 = w"
    using assms
    by (simp_all add: w1_def keydown_pause_def with_engine_def pause_installed[OF N(1)]
        resume_installed[OF N(2)] callbacks_installed_def)
  have h2: "hover w2 = (if (key = ''h'' \<or> key = ''H'') \<and> isRunning (gameEngine w1) \<and>
                           \<not> isPaused (gameEngine w1) then \<not> hover w1 else hover w1)"
    and c2: "callbacks_installed w2"
    using c1 by (simp_all add: w2_def keydown_hover_def callbacks_installed_def)
  have h3: "hover w3 = hover w2" and c3: "callbacks_installed w3"
    using c2 by (simp_all add: w3_def keydown_gear_def callbacks_installed_def)
  have h4: "hover w4 = hover w3" and c4: "callbacks_installed w4"
    using c3 by (simp_all add: w4_def keydown_thrusters_def callbacks_installed_def)
  have hk: "key = ''h'' \<or> key = ''H'' \<Longrightarrow> w1 = w"
    by (rule s1) auto
  show "callbacks_installed (keydown k now w)"
    using assms c4 by (simp add: K)
  show "hover (keydown k now w) =
     (if hover_keydown (KeyDown k rep now) \<and> screenActive w \<and> isRunning (gameEngine w) \<and>
         \<not> isPaused (gameEngine w)
      then \<not> hover w else hover w)"
  proof (cases "key = ''h'' \<or> key = ''H''")
    case True
    with hk have "w1 = w" by simp
    with True h2 h3 h4 show ?thesis
      by (simp add: K key_def[symmetric] Let_def)
  next
    case False
    with h1 h2 h3 h4 show ?thesis
      by (simp add: K key_def[symmetric] Let_def)
  qed
qed

lemma keyup_hover:
  "hover (keyup k w) = hover w"
  "callbacks_installed w \<Longrightarrow> callbacks_installed (keyup k w)"
  by (simp_all add: keyup_def Let_def callbacks_installed_def)

lemma world_step_hover:
  assumes "callbacks_installed w"
  shows "hover (world_step w ev) =
     (if hover_keydown ev \<and> screenActive w \<and> isRunning (gameEngine w) \<and> \<not> isPaused (gameEngine w)
      then \<not> hover w else hover w)"
    and "callbacks_installed (world_step w ev)"
proof -
  have "hover (world_step w ev) =
     (if hover_keydown ev \<and> screenActive w \<and> isRunning (gameEngine w) \<and> \<not> isPaused (gameEngine w)
      then \<not> hover w else hover w) \<and> callbacks_installed (world_step w ev)"
  proof (cases ev)
    case (KeyDown k rep now)
    with keydown_hover_toggle(1)[OF assms, where k = k and rep = rep and now = now]
      keydown_hover_toggle(2)[OF assms, of k now] show ?thesis by simp
  next
    case (KeyUp k)
    with keyup_hover[where k = k and w = w] assms show ?thesis by simp
  next
    case (AnimationFrame t now h)
    obtain e' g' calls' where G: "gameLoop (gameEngine w) (game w) t now h = (e', g', calls')"
      by (cases "gameLoop (gameEngine w) (game w) t now h") auto
    from assms have "onUpdate (gameEngine w) = Some (updateGame (config (gameEngine w)))"
      "onRender (gameEngine w) = Some renderGame"
      by (simp_all add: callbacks_installed_def)
    from gameLoop_world[OF G this] assms AnimationFrame G show ?thesis
      by (simp add: callbacks_installed_def)
  qed
  then show "hover (world_step w ev) =
     (if hover_keydown ev \<and> screenActive w \<and> isRunning (gameEngine w) \<and> \<not> isPaused (gameEngine w)
      then \<not> hover w else hover w)"
    and "callbacks_installed (world_step w ev)" by blast+
qed

lemma run_events_hover:
  "callbacks_installed w \<Longrightarrow>
   hover (run_events w evs) = (if even (hover_flips w evs) then hover w else \<not> hover w)"
proof (induction evs arbitrary: w)
  case Nil
  show ?case by (simp add: run_events_def)
next
  case (Cons ev evs)
  from world_step_hover[OF Cons.prems, of ev] Cons.IH[of "world_step w ev"]
  show ?case by (simp add: run_events_def)
qed

lemma hover_flips_none:
  "list_all (\<lambda>ev. \<not> hover_keydown ev) evs \<Longrightarrow> hover_flips w evs = 0"
  by (induction evs arbitrary: w) simp_all

lemma hover_keydown_h: "hover_keydown (KeyDown ''h'' rep now)"
  by (simp add: toLowerCase_def lower_char_def)

lemma hover_keydown_simps:
  "hover_keydown (KeyDown ''h'' rep now)"
  "hover_keydown (KeyDown ''H'' rep now)"
  "\<not> hover_keydown (KeyDown ''p'' rep now)"
  "\<not> pause_keydown (KeyDown ''h'' rep now)"
  "\<not> pause_keydown (KeyDown ''H'' rep now)"
  "pause_keydown (KeyDown ''P'' rep now)"
  by (simp_all add: toLowerCase_def lower_char_def)

lemma running_world_simps:
  "callbacks_installed running_world"
  "screenActive running_world"
  "isRunning (gameEngine running_world)"
  "\<not> isPaused (gameEngine running_world)"
  "\<not> hover running_world"
  by (simp_all add: running_world_def callbacks_installed_def initGame_engine_def
      install_callbacks_def new_GameEngine_def sample_game_def Let_def)

lemma gameLoop_flags:
  assumes G: "gameLoop e g t now h = (e', g', calls')"
  shows "isRunning e' = isRunning e \<and> isPaused e' = isPaused e"
proof (cases "isRunning e \<and> \<not> isPaused e")
  case False
  from G show ?thesis unfolding gameLoop_idle[OF False] by (auto split: if_splits)
next
  case True
  obtain e5 g5 calls5 where L: "updateLoop (pre_loop e t now h) g [] 0 = (e5, g5, calls5)"
    by (cases "updateLoop (pre_loop e t now h) g [] 0") auto
  have P: "isRunning (pre_loop e t now h) = isRunning e" "isPaused (pre_loop e t now h) = isPaused e"
    by (simp_all add: pre_loop_def updateStats_def Let_def)
  from updateLoop_fields[OF L] P have F: "isRunning e5 = isRunning e" "isPaused e5 = isPaused e"
    by simp_all
  from True have GU: "gameLoop e g t now h =
      (case updateLoop (pre_loop e t now h) g [] 0 of (e5, g5, calls5) \<Rightarrow>
        let e6 = (if accumulator e5 > updateTime e5 * of_int (maxFrameSkip e5)
                  then e5\<lparr>accumulator := updateTime e5 * of_int (maxFrameSkip e5)\<rparr>
                  else e5);
            alpha = accumulator e6 / updateTime e6
        in (e6\<lparr>stats := (stats e6)\<lparr>frameCount := frameCount (stats e6) + 1\<rparr>\<rparr>,
            (case onRender e6 of None \<Rightarrow> g5 | Some f \<Rightarrow> f alpha g5),
            (case onRender e6 of None \<Rightarrow> calls5 | Some f \<Rightarrow> calls5 @ [RenderCall alpha])))"
    by (intro gameLoop_unfold) simp_all
  show ?thesis
  proof (cases "accumulator e5 > updateTime e5 * of_int (maxFrameSkip e5)")
    case True
    with G show ?thesis unfolding GU L using F by (auto simp: Let_def)
  next
    case False
    with G show ?thesis unfolding GU L using F by (auto simp: Let_def)
  qed
qed

lemma keydown_blocks_engine:
  "key \<noteq> ''p'' \<Longrightarrow> keydown_pause key now w = w"
  "gameEngine (keydown_hover key w) = gameEngine w"
  "screenActive (keydown_hover key w) = screenActive w"
  "gameEngine (keydown_gear k w) = gameEngine w"
  "screenActive (keydown_gear k w) = screenActive w"
  "gameEngine (keydown_thrusters key k w) = gameEngine w"
  "screenActive (keydown_thrusters key k w) = screenActive w"
  by (simp_all add: keydown_pause_def keydown_hover_def keydown_gear_def keydown_thrusters_def)

lemma world_step_flags:
  assumes "\<not> pause_keydown ev"
  shows "screenActive (world_step w ev) = screenActive w \<and>
         isRunning (gameEngine (world_step w ev)) = isRunning (gameEngine w) \<and>
         isPaused (gameEngine (world_step w ev)) = isPaused (gameEngine w)"
proof (cases ev)
  case (KeyDown k rep now)
  with assms have "toLowerCase k \<noteq> ''p''" by simp
  then show ?thesis
    using KeyDown by (simp add: keydown_def Let_def keydown_blocks_engine)
next
  case (KeyUp k)
  then show ?thesis by (simp add: keyup_def Let_def)
next
  case (AnimationFrame t now h)
  obtain e' g' calls' where G: "gameLoop (gameEngine w) (game w) t now h = (e', g', calls')"
    by (cases "gameLoop (gameEngine w) (game w) t now h") auto
  from gameLoop_flags[OF G] AnimationFrame G show ?thesis by simp
qed

lemma hover_flips_count:
  "screenActive w \<Longrightarrow> isRunning (gameEngine w) \<Longrightarrow> \<not> isPaused (gameEngine w) \<Longrightarrow>
   list_all (\<lambda>ev. \<not> pause_keydown ev) evs \<Longrightarrow>
   hover_flips w evs = length (filter hover_keydown evs)"
proof (induction evs arbitrary: w)
  case Nil
  show ?case by simp
next
  case (Cons ev evs)
  from Cons.prems(4) have ev: "\<not> pause_keydown ev" and evs: "list_all (\<lambda>ev. \<not> pause_keydown ev) evs"
    by simp_all
  from world_step_flags[OF ev, of w] Cons.prems(1-3)
  have "screenActive (world_step w ev)" "isRunning (gameEngine (world_step w ev))"
    "\<not> isPaused (gameEngine (world_step w ev))" by simp_all
  from Cons.IH[OF this evs] Cons.prems(1-3) show ?case by simp
qed

text \<open>
  Claim C8, as the code has it. With the callbacks of \<open>initGame\<close> installed: a key-down
  event flips \<open>hoverMode\<close> exactly when it is a hover key-down event delivered while the
  screen is active and the engine is running and not paused, whether or not it is a
  repeated event (the listener does the same for \<open>event.repeat\<close> true and false); an
  update never changes \<open>hoverMode\<close>; over any list of key events and animation frames
  \<open>hoverMode\<close> is flipped once per such key-down event and by nothing else, so that
  events other than hover key-down events (frames, with any number of updates, among
  them) leave it as it is; and in a list of events without a key-down event of the
  pause key, delivered to an active screen and a running, unpaused engine, the number
  of flips is the number of hover key-down events, the repeated ones included.
\<close>

theorem hover_toggle_per_keydown:
  assumes "callbacks_installed w"
  shows "hover (keydown eventKey now w) =
           (if hover_keydown (KeyDown eventKey repeat now) \<and> screenActive w \<and>
               isRunning (gameEngine w) \<and> \<not> isPaused (gameEngine w)
            then \<not> hover w else hover w)
       \<and> world_step w (KeyDown eventKey True now) = world_step w (KeyDown eventKey False now)
       \<and> hoverMode (taxi (updateGame cfg dt g)) = hoverMode (taxi g)
       \<and> hover (run_events w evs) = (if even (hover_flips w evs) then hover w else \<not> hover w)
       \<and> (list_all (\<lambda>ev. \<not> hover_keydown ev) evs \<longrightarrow> hover (run_events w evs) = hover w)
       \<and> (screenActive w \<and> isRunning (gameEngine w) \<and> \<not> isPaused (gameEngine w) \<and>
            list_all (\<lambda>ev. \<not> pause_keydown ev) evs \<longrightarrow>
            hover_flips w evs = length (filter hover_keydown evs))"
proof -
  have "hover (run_events w evs) = hover w" if "list_all (\<lambda>ev. \<not> hover_keydown ev) evs"
    using run_events_hover[OF assms, of evs] that by (simp add: hover_flips_none)
  moreover have "hover_flips w evs = length (filter hover_keydown evs)"
    if "screenActive w" "isRunning (gameEngine w)" "\<not> isPaused (gameEngine w)"
      "list_all (\<lambda>ev. \<not> pause_keydown ev) evs"
    using that by (rule hover_flips_count)
  moreover have "hover (keydown eventKey now w) =
           (if hover_keydown (KeyDown eventKey repeat now) \<and> screenActive w \<and>
               isRunning (gameEngine w) \<and> \<not> isPaused (gameEngine w)
            then \<not> hover w else hover w)"
    by (rule keydown_hover_toggle(1)[OF assms])
  moreover have "hover (run_events w evs) = (if even (hover_flips w evs) then hover w else \<not> hover w)"
    by (rule run_events_hover[OF assms])
  moreover have "hoverMode (taxi (updateGame cfg dt g)) = hoverMode (taxi g)"
    by (simp add: updateGame_kin)
  moreover have "world_step w (KeyDown eventKey True now) = world_step w (KeyDown eventKey False now)"
    by simp
  ultimately show ?thesis by blast
qed

theorem hover_toggle_per_keydown_witness:
  "callbacks_installed running_world
   \<and> screenActive running_world \<and> isRunning (gameEngine running_world)
   \<and> \<not> isPaused (gameEngine running_world)
   \<and> list_all (\<lambda>ev. \<not> hover_keydown ev)
        [AnimationFrame 17 17 1, AnimationFrame 34 34 2, KeyUp ''h'']
   \<and> list_all (\<lambda>ev. \<not> pause_keydown ev)
        [KeyDown ''h'' False 0, AnimationFrame 17 17 1, AnimationFrame 34 34 2,
         KeyDown ''h'' True 500, AnimationFrame 517 517 3, KeyDown ''H'' True 530, KeyUp ''h'']
   \<and> (hover (run_events running_world
         [AnimationFrame 17 17 1, AnimationFrame 34 34 2, KeyUp ''h'']) = hover running_world)
   \<and> hover_flips running_world
        [KeyDown ''h'' False 0, AnimationFrame 17 17 1, AnimationFrame 34 34 2,
         KeyDown ''h'' True 500, AnimationFrame 517 517 3, KeyDown ''H'' True 530, KeyUp ''h''] = 3
   \<and> hover (run_events running_world
        [KeyDown ''h'' False 0, AnimationFrame 17 17 1, AnimationFrame 34 34 2,
         KeyDown ''h'' True 500, AnimationFrame 517 517 3, KeyDown ''H'' True 530, KeyUp ''h''])"
  using hover_toggle_per_keydown [where w = running_world
      and evs = "[AnimationFrame 17 17 1, AnimationFrame 34 34 2, KeyUp ''h'']"]
    hover_toggle_per_keydown [where w = running_world
      and evs = "[KeyDown ''h'' False 0, AnimationFrame 17 17 1, AnimationFrame 34 34 2,
         KeyDown ''h'' True 500, AnimationFrame 517 517 3, KeyDown ''H'' True 530, KeyUp ''h'']"]
  by (simp add: running_world_simps hover_keydown_simps
        del: hover_keydown.simps(1) pause_keydown.simps(1) hover_flips.simps)

text \<open>
  The key \<open>h\<close> goes down and stays down: the host delivers the key-down event, two
  frames, and then the event again with \<open>event.repeat\<close> set, before any key-up event.
  After the first event and the frames \<open>hoverMode\<close> is on; after the repeated event it
  is off again. Holding the key has toggled it twice.
\<close>

theorem held_key_counterexample:
  "\<not> hover running_world
   \<and> hover (run_events running_world
        [KeyDown ''h'' False 0, AnimationFrame 17 17 1, AnimationFrame 34 34 2])
   \<and> \<not> hover (run_events running_world
        [KeyDown ''h'' False 0, AnimationFrame 17 17 1, AnimationFrame 34 34 2,
         KeyDown ''h'' True 500, AnimationFrame 517 517 3])"
proof -
  note c = running_world_simps(1)
  have f1: "hover_flips running_world
        [KeyDown ''h'' False 0, AnimationFrame 17 17 1, AnimationFrame 34 34 2] = 1"
    by (subst hover_flips_count)
       (simp_all add: running_world_simps hover_keydown_simps
          del: hover_keydown.simps(1) pause_keydown.simps(1))
  have f2: "hover_flips running_world
        [KeyDown ''h'' False 0, AnimationFrame 17 17 1, AnimationFrame 34 34 2,
         KeyDown ''h'' True 500, AnimationFrame 517 517 3] = 2"
    by (subst hover_flips_count)
       (simp_all add: running_world_simps hover_keydown_simps
          del: hover_keydown.simps(1) pause_keydown.simps(1))
  show ?thesis
    unfolding run_events_hover[OF c] f1 f2 using running_world_simps(5) by simp
qed

end
